theory Spec2Isabelle
  imports Complex_Main
begin

section \<open>The Puter AI service: data model\<close>

text \<open>
  A shallow embedding of \<^verbatim>\<open>src/puterAIService.ts\<close> (class \<^verbatim>\<open>PuterAIService\<close>) and of the
  host side of the chat view provider that feeds it.  The service is a single object living on
  the single-threaded event loop of the extension host, so every method body (and every
  continuation between two \<^verbatim>\<open>await\<close>s) runs atomically: it is a function from the state
  before to the state after.
\<close>

subsection \<open>Messages and wire formats\<close>

datatype role = User | Assistant | System

record ChatMessage =
  role :: role
  content :: string
  timestamp :: nat

text \<open>
  \<^verbatim>\<open>PuterAPIResponse\<close>: the optional fields \<^verbatim>\<open>data?\<close> and \<^verbatim>\<open>error?\<close> are \<open>None\<close> when
  absent (JavaScript \<^verbatim>\<open>undefined\<close>).
\<close>

record PuterAPIResponse =
  requestId :: string
  success :: bool
  data :: "string option"
  error :: "string option"

text \<open>The parameter object of a chat call: prompt, model, temperature, max\_tokens.\<close>

datatype params = ChatParams string string rat nat

text \<open>Messages the host posts to the webview.\<close>

datatype outbound =
    ApiRequest string string params
  | StreamRequest string string string rat nat
  | HistoryResponse "ChatMessage list"

text \<open>
  A JavaScript error object: its \<^verbatim>\<open>name\<close> and its \<^verbatim>\<open>message\<close>.  \<open>Error m\<close> is
  \<^verbatim>\<open>new Error(m)\<close>.
\<close>

datatype jsError = JsError string string

definition Error :: "string \<Rightarrow> jsError" where
  "Error m = JsError ''Error'' m"

fun message :: "jsError \<Rightarrow> string" where
  "message (JsError n m) = m"

text \<open>\<^verbatim>\<open>`${error}`\<close>, that is \<^verbatim>\<open>Error.prototype.toString\<close>.\<close>

fun toString :: "jsError \<Rightarrow> string" where
  "toString (JsError n m) = (if m = [] then n else if n = [] then m else n @ '': '' @ m)"

subsection \<open>The service object and the event loop around it\<close>

text \<open>
  The settings store \<^verbatim>\<open>vscode.workspace.getConfiguration('puterAI')\<close>: every key may be
  unset.
\<close>

record WorkspaceConfiguration =
  cfg_defaultModel :: "string option"
  cfg_temperature :: "rat option"
  cfg_maxTokens :: "nat option"
  cfg_enableStreaming :: "bool option"
  cfg_enableAgentMode :: "bool option"
  cfg_agentAutoApply :: "bool option"

text \<open>
  An entry of \<^verbatim>\<open>pendingRequests\<close> is a pair of closures \<^verbatim>\<open>{resolve, reject}\<close>; both
  capture the handle of the 60 second timer and the promise of the attempt that stored them.
\<close>

record PendingEntry =
  timeout :: nat
  promise :: nat

datatype promise_state = Pending | Fulfilled "string option" | Rejected jsError

text \<open>The callback of an armed timer: the request id and the promise it closes over.\<close>

datatype timer_callback = RequestTimeout string nat

text \<open>What the outside world observes, in order.\<close>

datatype effect =
    Posted nat outbound
  | Waited nat
  | Chunk "string option"

text \<open>
  The fields \<open>config\<close> to \<open>webviewProvider\<close> are those of the class (a
  \<^verbatim>\<open>WebviewView\<close> is identified by a number).  The others are the part of the JavaScript
  runtime the class relies on: the armed timers, the promises created so far, the allocation
  counters for both, and the trace of observable effects (messages posted to the webview,
  backoff delays in milliseconds, chunks handed to \<^verbatim>\<open>onChunk\<close>).
\<close>

record host =
  config :: WorkspaceConfiguration
  conversationHistory :: "string \<rightharpoonup> ChatMessage list"
  pendingRequests :: "string \<rightharpoonup> PendingEntry"
  webviewProvider :: "nat option"
  timers :: "nat \<rightharpoonup> timer_callback"
  promises :: "nat \<rightharpoonup> promise_state"
  nextTimer :: nat
  nextPromise :: nat
  trace :: "effect list"


text \<open>The constructor: empty tables, no webview attached, nothing observed yet.\<close>

definition newService :: "WorkspaceConfiguration \<Rightarrow> host" where
  "newService c =
     \<lparr>config = c, conversationHistory = Map.empty, pendingRequests = Map.empty,
      webviewProvider = None, timers = Map.empty, promises = Map.empty,
      nextTimer = 0, nextPromise = 0, trace = []\<rparr>"

definition setWebviewProvider :: "nat \<Rightarrow> host \<Rightarrow> host" where
  "setWebviewProvider provider st = st\<lparr>webviewProvider := Some provider\<rparr>"

section \<open>Conversation store\<close>


text \<open>\<^verbatim>\<open>this.conversationHistory.get(conversationId) || []\<close>: an array is always truthy.\<close>

definition getHistory :: "string \<Rightarrow> host \<Rightarrow> ChatMessage list" where
  "getHistory conversationId st =
     (case conversationHistory st conversationId of None \<Rightarrow> [] | Some h \<Rightarrow> h)"

definition clearHistory :: "string \<Rightarrow> host \<Rightarrow> host" where
  "clearHistory conversationId st =
     st\<lparr>conversationHistory := (conversationHistory st)(conversationId := None)\<rparr>"





section \<open>JavaScript strings\<close>

text \<open>\<^verbatim>\<open>s.includes(sub)\<close>: \<open>sub\<close> occurs in \<open>s\<close> as a contiguous block.\<close>

fun includesStr :: "string \<Rightarrow> string \<Rightarrow> bool" where
  "includesStr [] sub = (sub = [])"
| "includesStr (c # cs) sub = (take (length sub) (c # cs) = sub \<or> includesStr cs sub)"

text \<open>\<^verbatim>\<open>s.substr(start, len)\<close> for non-negative arguments.\<close>

definition substr :: "nat \<Rightarrow> nat \<Rightarrow> string \<Rightarrow> string" where
  "substr start len s = take len (drop start s)"

text \<open>A non-negative integer inside a template literal: its decimal digits.\<close>

function string_of_nat :: "nat \<Rightarrow> string" where
  "string_of_nat n =
     (if n < 10 then [''0123456789'' ! n]
      else string_of_nat (n div 10) @ [''0123456789'' ! (n mod 10)])"
  by pat_completeness auto
termination
  by (relation "measure id") auto

declare string_of_nat.simps [simp del]

text \<open>\<^verbatim>\<open>x || dflt\<close> on an optional string: absent and empty strings are falsy.\<close>

definition orElse :: "string option \<Rightarrow> string \<Rightarrow> string" where
  "orElse x dflt = (case x of None \<Rightarrow> dflt | Some s \<Rightarrow> if s = [] then dflt else s)"

section \<open>Promises and timers\<close>

text \<open>
  A promise is created pending and settles at most once: \<^verbatim>\<open>resolve\<close> and \<^verbatim>\<open>reject\<close> on
  a settled promise do nothing.  A timer that was cleared, or that has fired, never fires.
\<close>

definition newPromise :: "host \<Rightarrow> nat \<times> host" where
  "newPromise st =
     (nextPromise st,
      st\<lparr>promises := (promises st)(nextPromise st \<mapsto> Pending),
         nextPromise := Suc (nextPromise st)\<rparr>)"

definition settle :: "nat \<Rightarrow> promise_state \<Rightarrow> host \<Rightarrow> host" where
  "settle p outcome st =
     (if promises st p = Some Pending then st\<lparr>promises := (promises st)(p \<mapsto> outcome)\<rparr>
      else st)"

definition setTimeout :: "timer_callback \<Rightarrow> host \<Rightarrow> nat \<times> host" where
  "setTimeout cb st =
     (nextTimer st,
      st\<lparr>timers := (timers st)(nextTimer st \<mapsto> cb), nextTimer := Suc (nextTimer st)\<rparr>)"

definition clearTimeout :: "nat \<Rightarrow> host \<Rightarrow> host" where
  "clearTimeout h st = st\<lparr>timers := (timers st)(h := None)\<rparr>"

section \<open>The pending-request table\<close>

text \<open>The two closures stored in a pending entry (lines 364 to 371).\<close>

definition entry_resolve :: "PendingEntry \<Rightarrow> string option \<Rightarrow> host \<Rightarrow> host" where
  "entry_resolve pending v st =
     settle (promise pending) (Fulfilled v) (clearTimeout (timeout pending) st)"

definition entry_reject :: "PendingEntry \<Rightarrow> jsError \<Rightarrow> host \<Rightarrow> host" where
  "entry_reject pending err st =
     settle (promise pending) (Rejected err) (clearTimeout (timeout pending) st)"

definition handleAPIResponse :: "PuterAPIResponse \<Rightarrow> host \<Rightarrow> host" where
  "handleAPIResponse response st =
     (case pendingRequests st (requestId response) of
        None \<Rightarrow> st
      | Some pending \<Rightarrow>
          (let st1 = (if success response then entry_resolve pending (data response) st
                      else entry_reject pending
                             (Error (orElse (error response) ''Unknown error'')) st)
           in st1\<lparr>pendingRequests := (pendingRequests st1)(requestId response := None)\<rparr>))"

definition timeoutMessage :: string where
  "timeoutMessage = ''Request timeout - AI service did not respond within 60 seconds''"

text \<open>
  The event loop runs the callback of timer \<open>h\<close>.  For a request timer (lines 357 to 360) the
  callback deletes the pending entry, then rejects the promise.
\<close>

definition fireTimer :: "nat \<Rightarrow> host \<Rightarrow> host" where
  "fireTimer h st =
     (case timers st h of
        None \<Rightarrow> st
      | Some (RequestTimeout rid p) \<Rightarrow>
          (let st1 = st\<lparr>timers := (timers st)(h := None)\<rparr>;
               st2 = st1\<lparr>pendingRequests := (pendingRequests st1)(rid := None)\<rparr>
           in settle p (Rejected (Error timeoutMessage)) st2))"

text \<open>
  The executor of the promise of one attempt (lines 355 to 381): arm the timer, store the
  entry, post the request.  It returns the promise, the timer handle and the new state.  With
  no webview attached the non-null assertion fails and the thrown \<^verbatim>\<open>TypeError\<close> rejects the
  promise; \<^verbatim>\<open>callPuterAPI\<close> never gets there.
\<close>

definition promiseExecutor ::
  "string \<Rightarrow> string \<Rightarrow> params \<Rightarrow> host \<Rightarrow> nat \<times> nat \<times> host" where
  "promiseExecutor rid method ps st =
     (let (p, st1) = newPromise st;
          (h, st2) = setTimeout (RequestTimeout rid p) st1;
          st3 = st2\<lparr>pendingRequests :=
                      (pendingRequests st2)(rid \<mapsto> \<lparr>timeout = h, promise = p\<rparr>)\<rparr>
      in case webviewProvider st3 of
           Some w \<Rightarrow> (p, h, st3\<lparr>trace := trace st3 @ [Posted w (ApiRequest rid method ps)]\<rparr>)
         | None \<Rightarrow>
             (p, h, settle p (Rejected (JsError ''TypeError''
                ''Cannot read properties of undefined (reading 'webview')'')) st3))"

section \<open>Issuing a request\<close>

text \<open>
  What the environment contributes to one attempt: the clock and the random number its
  request id is built from, the replies the webview delivers to \<^verbatim>\<open>handleAPIResponse\<close> before
  the 60 second deadline of the attempt (in order of arrival), and those delivered during the
  backoff delay that follows it.
\<close>

record attempt_env =
  now :: nat
  random36 :: string
  arrivals :: "PuterAPIResponse list"
  stragglers :: "PuterAPIResponse list"

text \<open>How an asynchronous call ends; \<open>Suspended p\<close> waits on promise \<open>p\<close> for ever.\<close>

datatype 'a completion = Returned 'a | Threw jsError | Suspended nat

text \<open>\<^verbatim>\<open>`req_${Date.now()}_${Math.random().toString(36).substr(2, 9)}`\<close>\<close>

definition genRequestId :: "attempt_env \<Rightarrow> string" where
  "genRequestId e = ''req_'' @ string_of_nat (now e) @ ''_'' @ substr 2 9 (random36 e)"

definition deliver :: "PuterAPIResponse list \<Rightarrow> host \<Rightarrow> host" where
  "deliver rs st = foldl (\<lambda>s r. handleAPIResponse r s) st rs"

text \<open>
  \<^verbatim>\<open>await\<close> on the promise of an attempt: the replies that arrive before the deadline are
  handled, then the timer of the attempt is due (and fires unless it was cleared).
\<close>

definition awaitRequest ::
  "nat \<Rightarrow> nat \<Rightarrow> PuterAPIResponse list \<Rightarrow> host \<Rightarrow> string option completion \<times> host" where
  "awaitRequest p h rs st =
     (let st1 = fireTimer h (deliver rs st)
      in (case promises st1 p of
            Some (Fulfilled v) \<Rightarrow> Returned v
          | Some (Rejected e) \<Rightarrow> Threw e
          | _ \<Rightarrow> Suspended p, st1))"

definition nonRetryable :: "jsError \<Rightarrow> bool" where
  "nonRetryable e =
     (includesStr (message e) ''not initialized'' \<or>
      includesStr (message e) ''Invalid model'' \<or>
      includesStr (message e) ''Authentication failed'')"

text \<open>\<^verbatim>\<open>await new Promise(resolve => setTimeout(resolve, Math.pow(2, attempt) * 1000))\<close>\<close>

definition backoff :: "nat \<Rightarrow> PuterAPIResponse list \<Rightarrow> host \<Rightarrow> host" where
  "backoff attempt rs st = deliver rs (st\<lparr>trace := trace st @ [Waited (2 ^ attempt * 1000)]\<rparr>)"

text \<open>
  One pass through the \<^verbatim>\<open>try\<close> block (lines 353 to 383): a new request id, the executor,
  the \<^verbatim>\<open>await\<close>.
\<close>

definition runAttempt ::
  "string \<Rightarrow> params \<Rightarrow> attempt_env \<Rightarrow> host \<Rightarrow> string option completion \<times> host" where
  "runAttempt method ps e st =
     (let (p, h, st1) = promiseExecutor (genRequestId e) method ps st
      in awaitRequest p h (arrivals e) st1)"

text \<open>The \<^verbatim>\<open>for\<close> loop of \<^verbatim>\<open>callPuterAPI\<close> and the \<^verbatim>\<open>throw\<close> after it.\<close>

function attemptLoop ::
  "string \<Rightarrow> params \<Rightarrow> nat \<Rightarrow> nat \<Rightarrow> jsError option \<Rightarrow> (nat \<Rightarrow> attempt_env) \<Rightarrow> host
   \<Rightarrow> string option completion \<times> host" where
  "attemptLoop method ps retries attempt lastError env st =
     (if attempt < retries then
        (case runAttempt method ps (env attempt) st of
           (Returned v, st2) \<Rightarrow> (Returned v, st2)
         | (Suspended q, st2) \<Rightarrow> (Suspended q, st2)
         | (Threw e, st2) \<Rightarrow>
             if nonRetryable e then (Threw e, st2)
             else attemptLoop method ps retries (Suc attempt) (Some e) env
                    (if attempt < retries - 1
                     then backoff attempt (stragglers (env attempt)) st2 else st2))
      else (Threw (Error (''Failed after '' @ string_of_nat retries @ '' attempts: '' @
                          (case lastError of None \<Rightarrow> ''undefined'' | Some e \<Rightarrow> message e))),
            st))"
  by pat_completeness auto
termination
  by (relation "measure (\<lambda>(method, ps, retries, attempt, lastError, env, st). retries - attempt)")
     auto

declare attemptLoop.simps [simp del]

definition callPuterAPI ::
  "string \<Rightarrow> params \<Rightarrow> nat \<Rightarrow> (nat \<Rightarrow> attempt_env) \<Rightarrow> host
   \<Rightarrow> string option completion \<times> host" where
  "callPuterAPI method ps retries env st =
     (if webviewProvider st = None
      then (Threw (Error ''Webview provider not initialized''), st)
      else attemptLoop method ps retries 0 None env st)"

section \<open>Chat\<close>

record Config =
  model :: string
  temperature :: rat
  maxTokens :: nat
  enableStreaming :: bool
  enableAgentMode :: bool
  agentAutoApply :: bool

definition getConfig :: "host \<Rightarrow> Config" where
  "getConfig st =
     \<lparr>model = (case cfg_defaultModel (config st) of None \<Rightarrow> ''claude-sonnet-4-5'' | Some v \<Rightarrow> v),
      temperature = (case cfg_temperature (config st) of None \<Rightarrow> 7 / 10 | Some v \<Rightarrow> v),
      maxTokens = (case cfg_maxTokens (config st) of None \<Rightarrow> 2000 | Some v \<Rightarrow> v),
      enableStreaming = (case cfg_enableStreaming (config st) of None \<Rightarrow> True | Some v \<Rightarrow> v),
      enableAgentMode = (case cfg_enableAgentMode (config st) of None \<Rightarrow> False | Some v \<Rightarrow> v),
      agentAutoApply = (case cfg_agentAutoApply (config st) of None \<Rightarrow> False | Some v \<Rightarrow> v)\<rparr>"

text \<open>What \<^verbatim>\<open>getWorkspaceContext\<close> reads from the editor.\<close>

record Selection =
  isEmpty :: bool
  startLine :: nat
  endLine :: nat

record TextEditor =
  fileName :: string
  languageId :: string
  selection :: Selection

record Workspace =
  workspaceFolders :: "string list option"
  activeTextEditor :: "TextEditor option"

definition getWorkspaceContext :: "Workspace \<Rightarrow> jsError + string" where
  "getWorkspaceContext ws =
     (case workspaceFolders ws of
        None \<Rightarrow> Inr ''No workspace open''
      | Some [] \<Rightarrow>
          Inl (JsError ''TypeError'' ''Cannot read properties of undefined (reading 'name')'')
      | Some (folder # _) \<Rightarrow>
          Inr (''Workspace: '' @ folder @ ''\<newline>'' @
               (case activeTextEditor ws of
                  None \<Rightarrow> []
                | Some ed \<Rightarrow>
                    ''Active File: '' @ fileName ed @ ''\<newline>'' @
                    ''Language: '' @ languageId ed @ ''\<newline>'' @
                    (if isEmpty (selection ed) then []
                     else ''Selected Lines: '' @ string_of_nat (startLine (selection ed) + 1) @
                          ''-'' @ string_of_nat (endLine (selection ed) + 1) @ ''\<newline>''))))"

definition fullPrompt :: "string option \<Rightarrow> string \<Rightarrow> string \<Rightarrow> string" where
  "fullPrompt systemPrompt context msg =
     (case systemPrompt of
        None \<Rightarrow> msg
      | Some sp \<Rightarrow>
          if sp = [] then msg
          else sp @ ''\<newline>\<newline>Context:\<newline>'' @ context @ ''\<newline>\<newline>User: '' @ msg)"

definition chat ::
  "string \<Rightarrow> string option \<Rightarrow> Workspace \<Rightarrow> (nat \<Rightarrow> attempt_env) \<Rightarrow> host
   \<Rightarrow> string option completion \<times> host" where
  "chat msg systemPrompt ws env st =
     (let cfg = getConfig st
      in case getWorkspaceContext ws of
           Inl e \<Rightarrow> (Threw e, st)
         | Inr context \<Rightarrow>
             (case callPuterAPI ''chat''
                     (ChatParams (fullPrompt systemPrompt context msg)
                        (model cfg) (temperature cfg) (maxTokens cfg))
                     3 env st of
                (Threw e, st') \<Rightarrow> (Threw (Error (''Puter AI Error: '' @ message e)), st')
              | (r, st') \<Rightarrow> (r, st')))"

section \<open>Streaming\<close>

text \<open>
  \<^verbatim>\<open>chatWithStreaming\<close>.  The callback \<^verbatim>\<open>onChunk\<close> is the caller's; a call of it is
  recorded in the trace as \<open>Chunk\<close>.  With streaming switched off the method awaits \<^verbatim>\<open>chat\<close>
  and hands over its result.  Otherwise it posts a \<^verbatim>\<open>streamRequest\<close> and returns a new
  promise whose \<^verbatim>\<open>resolve\<close> and \<^verbatim>\<open>reject\<close> are known to the function \<^verbatim>\<open>listener\<close>
  only; the executor defines \<^verbatim>\<open>listener\<close> and attaches it to nothing.
\<close>

definition genStreamId :: "attempt_env \<Rightarrow> string" where
  "genStreamId e = ''stream_'' @ string_of_nat (now e) @ ''_'' @ substr 2 9 (random36 e)"

definition chatWithStreaming ::
  "string \<Rightarrow> string option \<Rightarrow> Workspace \<Rightarrow> (nat \<Rightarrow> attempt_env) \<Rightarrow> host
   \<Rightarrow> unit completion \<times> host" where
  "chatWithStreaming msg systemPrompt ws env st =
     (let cfg = getConfig st
      in if \<not> enableStreaming cfg then
           (case chat msg systemPrompt ws env st of
              (Returned response, st') \<Rightarrow>
                (Returned (), st'\<lparr>trace := trace st' @ [Chunk response]\<rparr>)
            | (Threw e, st') \<Rightarrow> (Threw e, st')
            | (Suspended q, st') \<Rightarrow> (Suspended q, st'))
         else if webviewProvider st = None then
           (Threw (Error ''Webview provider not initialized''), st)
         else
           (case getWorkspaceContext ws of
              Inl e \<Rightarrow> (Threw e, st)
            | Inr context \<Rightarrow>
                (let (p, st1) = newPromise st
                 in (Suspended p,
                     case webviewProvider st1 of
                       None \<Rightarrow> st1
                     | Some w \<Rightarrow>
                         st1\<lparr>trace := trace st1 @
                           [Posted w (StreamRequest (genStreamId (env 0))
                              (fullPrompt systemPrompt context msg)
                              (model cfg) (temperature cfg) (maxTokens cfg))]\<rparr>))))"

text \<open>
  Messages the webview posts to the host.  The first three are handled by the
  \<^verbatim>\<open>switch\<close> of \<^verbatim>\<open>onDidReceiveMessage\<close> in the chat view provider by calling the service;
  the stream events are what \<^verbatim>\<open>handleStreamRequest\<close> in the webview posts.  (The message
  types \<^verbatim>\<open>chat\<close>, \<^verbatim>\<open>insertCode\<close>, \<^verbatim>\<open>agentModify\<close> and \<^verbatim>\<open>openExternal\<close> start editor
  actions and are left out.)
\<close>

datatype inbound =
    ApiResponse PuterAPIResponse
  | ClearHistoryMsg "string option"
  | GetHistoryMsg "string option"
  | StreamChunk string "string option"
  | StreamEnd string
  | StreamError string string

text \<open>The function \<^verbatim>\<open>listener\<close> of \<^verbatim>\<open>chatWithStreaming\<close>, for request id \<open>rid\<close> and promise \<open>p\<close>.\<close>

fun listener :: "string \<Rightarrow> nat \<Rightarrow> inbound \<Rightarrow> host \<Rightarrow> host" where
  "listener rid p (StreamChunk r chunk) st =
     (if r = rid then st\<lparr>trace := trace st @ [Chunk chunk]\<rparr> else st)"
| "listener rid p (StreamEnd r) st = (if r = rid then settle p (Fulfilled None) st else st)"
| "listener rid p (StreamError r err) st =
     (if r = rid then settle p (Rejected (Error err)) st else st)"
| "listener rid p other st = st"

text \<open>
  \<^verbatim>\<open>onDidReceiveMessage\<close>: the \<^verbatim>\<open>switch\<close> has no case for the stream events and no
  default, and nothing else in the host subscribes to webview messages.
\<close>

fun onDidReceiveMessage :: "inbound \<Rightarrow> host \<Rightarrow> host" where
  "onDidReceiveMessage (ApiResponse response) st = handleAPIResponse response st"
| "onDidReceiveMessage (ClearHistoryMsg c) st = clearHistory (orElse c ''default'') st"
| "onDidReceiveMessage (GetHistoryMsg c) st =
     (case webviewProvider st of
        None \<Rightarrow> st
      | Some w \<Rightarrow>
          st\<lparr>trace := trace st @
            [Posted w (HistoryResponse (getHistory (orElse c ''default'') st))]\<rparr>)"
| "onDidReceiveMessage other st = st"

definition receiveAll :: "inbound list \<Rightarrow> host \<Rightarrow> host" where
  "receiveAll msgs st = foldl (\<lambda>s m. onDidReceiveMessage m s) st msgs"

text \<open>The chunks handed to \<^verbatim>\<open>onChunk\<close> and the stream requests posted, as recorded in a trace.\<close>

fun chunksOf :: "effect list \<Rightarrow> string option list" where
  "chunksOf [] = []"
| "chunksOf (Chunk c # es) = c # chunksOf es"
| "chunksOf (e # es) = chunksOf es"

fun isStreamRequest :: "effect \<Rightarrow> bool" where
  "isStreamRequest (Posted w (StreamRequest a b c d e)) = True"
| "isStreamRequest other = False"

section \<open>Agent mode\<close>

text \<open>What \<^verbatim>\<open>JSON.parse\<close> returns.\<close>

datatype json =
    JNull
  | JBool bool
  | JNumber rat
  | JString string
  | JArray "json list"
  | JObject "(string \<times> json) list"

text \<open>
  \<^verbatim>\<open>response.match(/\{[\s\S]*\}/)\<close>, element 0 of the result: from the first opening brace
  to the last closing brace after it, if there is one.
\<close>

definition matchBraces :: "string \<Rightarrow> string option" where
  "matchBraces s =
     (let fromOpen = dropWhile (\<lambda>c. c \<noteq> CHR ''{'') s
      in if fromOpen = [] then None
         else (let upToClose = dropWhile (\<lambda>c. c \<noteq> CHR ''}'') (rev (tl fromOpen))
               in if upToClose = [] then None else Some (CHR ''{'' # rev upToClose)))"

definition agentPrompt :: "string \<Rightarrow> string \<Rightarrow> string \<Rightarrow> string \<Rightarrow> string" where
  \<open>agentPrompt instruction code language filePath =
     ''You are a code modification agent. Modify the following '' @ language @
     '' code according to the user's instruction.\<newline>\<newline>FILE: '' @ filePath @
     ''\<newline>INSTRUCTION: '' @ instruction @
     ''\<newline>\<newline>CURRENT CODE:\<newline>```'' @ language @ ''\<newline>'' @ code @
     ''\<newline>```\<newline>\<newline>Respond in JSON format:\<newline>{\<newline>'' @
     ''    "modifiedCode": "the complete modified code",\<newline>'' @
     ''    "explanation": "what changes were made",\<newline>'' @
     ''    "changesSummary": "brief summary of changes"\<newline>}''\<close>

text \<open>
  The \<^verbatim>\<open>try\<close> block of \<^verbatim>\<open>agentModifyCode\<close> with its \<^verbatim>\<open>catch\<close>.  \<^verbatim>\<open>JSON.parse\<close> is
  the parameter \<open>jsonParse\<close>.  On \<^verbatim>\<open>undefined\<close> the call of \<^verbatim>\<open>match\<close> throws inside the
  \<^verbatim>\<open>try\<close>.
\<close>

definition extractModification ::
  "(string \<Rightarrow> jsError + json) \<Rightarrow> string \<Rightarrow> string option \<Rightarrow> json completion" where
  "extractModification jsonParse code response =
     (case (case response of
              None \<Rightarrow>
                Inl (JsError ''TypeError''
                       ''Cannot read properties of undefined (reading 'match')'')
            | Some text \<Rightarrow>
                (case matchBraces text of
                   Some block \<Rightarrow> jsonParse block
                 | None \<Rightarrow>
                     Inr (JObject [(''modifiedCode'', JString code),
                                   (''explanation'', JString ''Could not parse agent response''),
                                   (''changesSummary'', JString ''No changes made'')]))) of
        Inl e \<Rightarrow> Threw (Error (''Failed to parse agent response: '' @ toString e))
      | Inr v \<Rightarrow> Returned v)"

definition agentModifyCode ::
  "(string \<Rightarrow> jsError + json) \<Rightarrow> string \<Rightarrow> string \<Rightarrow> string \<Rightarrow> string \<Rightarrow> Workspace
   \<Rightarrow> (nat \<Rightarrow> attempt_env) \<Rightarrow> host \<Rightarrow> json completion \<times> host" where
  "agentModifyCode jsonParse instruction code language filePath ws env st =
     (case chat (agentPrompt instruction code language filePath)
             (Some ''You are an expert code modification agent. Always respond with valid JSON.'')
             ws env st of
        (Returned response, st') \<Rightarrow> (extractModification jsonParse code response, st')
      | (Threw e, st') \<Rightarrow> (Threw e, st')
      | (Suspended q, st') \<Rightarrow> (Suspended q, st'))"

section \<open>Invariants and derived notions used in the statements\<close>

text \<open>Every closure in the table refers to a timer and a promise that were created earlier.\<close>

definition wellFormed :: "host \<Rightarrow> bool" where
  "wellFormed st =
     (\<forall>rid e. pendingRequests st rid = Some e \<longrightarrow>
        timeout e < nextTimer st \<and> promise e < nextPromise st)"

text \<open>
  The first reply to the request of an attempt that arrives before its deadline, and how the
  attempt ends according to it.
\<close>

definition firstReply :: "attempt_env \<Rightarrow> PuterAPIResponse option" where
  "firstReply e = find (\<lambda>r. requestId r = genRequestId e) (arrivals e)"

definition replyState :: "PuterAPIResponse \<Rightarrow> promise_state" where
  "replyState r =
     (if success r then Fulfilled (data r)
      else Rejected (Error (orElse (error r) ''Unknown error'')))"

definition attemptOutcome :: "attempt_env \<Rightarrow> string option completion" where
  "attemptOutcome e =
     (case firstReply e of
        None \<Rightarrow> Threw (Error timeoutMessage)
      | Some r \<Rightarrow>
          if success r then Returned (data r)
          else Threw (Error (orElse (error r) ''Unknown error'')))"

text \<open>Request \<open>rid\<close> with timer \<open>h\<close> and promise \<open>p\<close> is still open, or finished with state \<open>s\<close>.\<close>

definition inFlight :: "host \<Rightarrow> string \<Rightarrow> nat \<Rightarrow> nat \<Rightarrow> bool" where
  "inFlight st rid h p =
     (pendingRequests st rid = Some \<lparr>timeout = h, promise = p\<rparr> \<and>
      timers st h = Some (RequestTimeout rid p) \<and>
      promises st p = Some Pending \<and>
      (\<forall>r e. r \<noteq> rid \<longrightarrow> pendingRequests st r = Some e \<longrightarrow> timeout e \<noteq> h \<and> promise e \<noteq> p))"

definition finished :: "host \<Rightarrow> string \<Rightarrow> nat \<Rightarrow> nat \<Rightarrow> promise_state \<Rightarrow> bool" where
  "finished st rid h p s =
     (pendingRequests st rid = None \<and> timers st h = None \<and>
      promises st p = Some s \<and> s \<noteq> Pending)"

text \<open>The settings store with no key set: \<^verbatim>\<open>getConfig\<close> then yields the defaults.\<close>

definition unsetSettings :: WorkspaceConfiguration where
  "unsetSettings =
     \<lparr>cfg_defaultModel = None, cfg_temperature = None, cfg_maxTokens = None,
      cfg_enableStreaming = None, cfg_enableAgentMode = None, cfg_agentAutoApply = None\<rparr>"

section \<open>Conversation store: proofs\<close>















section \<open>Substring test\<close>

lemma includesStr_iff: "includesStr s sub \<longleftrightarrow> (\<exists>a b. s = a @ sub @ b)"
proof (induction s)
  case Nil
  then show ?case by auto
next
  case (Cons x xs)
  show ?case
  proof
    assume "includesStr (x # xs) sub"
    then consider "take (length sub) (x # xs) = sub" | "includesStr xs sub" by auto
    then show "\<exists>a b. x # xs = a @ sub @ b"
    proof cases
      case 1
      then have "x # xs = [] @ sub @ drop (length sub) (x # xs)"
        by (metis append_Nil append_take_drop_id)
      then show ?thesis by blast
    next
      case 2
      with Cons.IH obtain a b where "xs = a @ sub @ b" by blast
      then have "x # xs = (x # a) @ sub @ b" by simp
      then show ?thesis by blast
    qed
  next
    assume "\<exists>a b. x # xs = a @ sub @ b"
    then obtain a b where ab: "x # xs = a @ sub @ b" by blast
    show "includesStr (x # xs) sub"
    proof (cases a)
      case Nil
      with ab have "take (length sub) (x # xs) = sub" by simp
      then show ?thesis by simp
    next
      case (Cons y ys)
      with ab have "xs = ys @ sub @ b" by simp
      with Cons.IH have "includesStr xs sub" by blast
      then show ?thesis by simp
    qed
  qed
qed

section \<open>Pending-request table: proofs\<close>

lemma handleAPIResponse_frame:
  "trace (handleAPIResponse r st) = trace st"
  "webviewProvider (handleAPIResponse r st) = webviewProvider st"
  "nextTimer (handleAPIResponse r st) = nextTimer st"
  "nextPromise (handleAPIResponse r st) = nextPromise st"
  "config (handleAPIResponse r st) = config st"
  "conversationHistory (handleAPIResponse r st) = conversationHistory st"
  by (simp_all add: handleAPIResponse_def entry_resolve_def entry_reject_def settle_def
        clearTimeout_def Let_def split: option.splits)

lemma handleAPIResponse_absent:
  "pendingRequests st (requestId r) = None \<Longrightarrow> handleAPIResponse r st = st"
  by (simp add: handleAPIResponse_def)

lemma handleAPIResponse_pending:
  "pendingRequests (handleAPIResponse r st) k =
     (if k = requestId r then None else pendingRequests st k)"
  by (simp add: handleAPIResponse_def entry_resolve_def entry_reject_def settle_def
        clearTimeout_def Let_def split: option.splits)

lemma handleAPIResponse_wellFormed:
  "wellFormed st \<Longrightarrow> wellFormed (handleAPIResponse r st)"
  by (simp add: wellFormed_def handleAPIResponse_pending handleAPIResponse_frame)

lemma handleAPIResponse_match:
  assumes "inFlight st rid h p" and "requestId r = rid"
  shows "finished (handleAPIResponse r st) rid h p (replyState r)"
  using assms
  by (simp add: inFlight_def finished_def replyState_def handleAPIResponse_def entry_resolve_def
        entry_reject_def settle_def clearTimeout_def Let_def)

lemma handleAPIResponse_other:
  assumes "inFlight st rid h p" and "requestId r \<noteq> rid"
  shows "inFlight (handleAPIResponse r st) rid h p"
  using assms
  by (auto simp: inFlight_def handleAPIResponse_def entry_resolve_def
        entry_reject_def settle_def clearTimeout_def Let_def split: option.splits)

lemma handleAPIResponse_closed:
  assumes "finished st rid h p s"
  shows "finished (handleAPIResponse r st) rid h p s"
  using assms
  by (auto simp: finished_def handleAPIResponse_def entry_resolve_def
        entry_reject_def settle_def clearTimeout_def Let_def split: option.splits)

lemma deliver_Cons: "deliver (r # rs) st = deliver rs (handleAPIResponse r st)"
  by (simp add: deliver_def)

lemma deliver_Nil: "deliver [] st = st"
  by (simp add: deliver_def)

lemma deliver_frame:
  "trace (deliver rs st) = trace st \<and>
   webviewProvider (deliver rs st) = webviewProvider st \<and>
   nextTimer (deliver rs st) = nextTimer st \<and>
   nextPromise (deliver rs st) = nextPromise st \<and>
   config (deliver rs st) = config st \<and>
   conversationHistory (deliver rs st) = conversationHistory st"
  by (induction rs arbitrary: st) (simp_all add: deliver_Nil deliver_Cons handleAPIResponse_frame)

lemma deliver_wellFormed: "wellFormed st \<Longrightarrow> wellFormed (deliver rs st)"
  by (induction rs arbitrary: st) (simp_all add: deliver_Nil deliver_Cons handleAPIResponse_wellFormed)

lemma deliver_closed: "finished st rid h p s \<Longrightarrow> finished (deliver rs st) rid h p s"
  by (induction rs arbitrary: st) (simp_all add: deliver_Nil deliver_Cons handleAPIResponse_closed)

lemma deliver_inFlight:
  "inFlight st rid h p \<Longrightarrow>
   (case find (\<lambda>r. requestId r = rid) rs of
      None \<Rightarrow> inFlight (deliver rs st) rid h p
    | Some r \<Rightarrow> finished (deliver rs st) rid h p (replyState r))"
proof (induction rs arbitrary: st)
  case Nil
  then show ?case by (simp add: deliver_Nil)
next
  case (Cons r rs)
  show ?case
  proof (cases "requestId r = rid")
    case True
    with Cons.prems have "finished (handleAPIResponse r st) rid h p (replyState r)"
      by (simp add: handleAPIResponse_match)
    then have "finished (deliver rs (handleAPIResponse r st)) rid h p (replyState r)"
      by (rule deliver_closed)
    with True show ?thesis by (simp add: deliver_Cons)
  next
    case False
    with Cons.prems have "inFlight (handleAPIResponse r st) rid h p"
      by (simp add: handleAPIResponse_other)
    from Cons.IH [OF this] False show ?thesis by (simp add: deliver_Cons split: option.splits)
  qed
qed

lemma fireTimer_frame:
  "trace (fireTimer h st) = trace st"
  "webviewProvider (fireTimer h st) = webviewProvider st"
  "nextTimer (fireTimer h st) = nextTimer st"
  "nextPromise (fireTimer h st) = nextPromise st"
  "config (fireTimer h st) = config st"
  "conversationHistory (fireTimer h st) = conversationHistory st"
  by (simp_all add: fireTimer_def settle_def Let_def split: option.splits timer_callback.splits)

lemma fireTimer_cleared: "timers st h = None \<Longrightarrow> fireTimer h st = st"
  by (simp add: fireTimer_def)

lemma fireTimer_wellFormed: "wellFormed st \<Longrightarrow> wellFormed (fireTimer h st)"
  by (auto simp: wellFormed_def fireTimer_def settle_def Let_def split: option.splits timer_callback.splits)

lemma fireTimer_inFlight:
  "inFlight st rid h p \<Longrightarrow> finished (fireTimer h st) rid h p (Rejected (Error timeoutMessage))"
  by (simp add: inFlight_def finished_def fireTimer_def settle_def Let_def)

section \<open>One attempt\<close>

lemma promiseExecutor_attached:
  assumes "webviewProvider st = Some w"
  shows "promiseExecutor rid m ps st =
     (nextPromise st, nextTimer st,
      st\<lparr>promises := (promises st)(nextPromise st \<mapsto> Pending),
         nextPromise := Suc (nextPromise st),
         timers := (timers st)(nextTimer st \<mapsto> RequestTimeout rid (nextPromise st)),
         nextTimer := Suc (nextTimer st),
         pendingRequests := (pendingRequests st)
            (rid \<mapsto> \<lparr>timeout = nextTimer st, promise = nextPromise st\<rparr>),
         trace := trace st @ [Posted w (ApiRequest rid m ps)]\<rparr>)"
  using assms by (simp add: promiseExecutor_def newPromise_def setTimeout_def)

lemma promiseExecutor_inFlight:
  assumes "wellFormed st" and "webviewProvider st = Some w"
    and "promiseExecutor rid m ps st = (p, h, st1)"
  shows "inFlight st1 rid h p" and "wellFormed st1" and "h = nextTimer st"
    and "trace st1 = trace st @ [Posted w (ApiRequest rid m ps)]"
    and "webviewProvider st1 = Some w"
    and "config st1 = config st" and "conversationHistory st1 = conversationHistory st"
proof -
  from assms(3) promiseExecutor_attached [OF assms(2), of rid m ps]
  have all: "p = nextPromise st \<and> h = nextTimer st \<and>
       st1 = st\<lparr>promises := (promises st)(nextPromise st \<mapsto> Pending),
         nextPromise := Suc (nextPromise st),
         timers := (timers st)(nextTimer st \<mapsto> RequestTimeout rid (nextPromise st)),
         nextTimer := Suc (nextTimer st),
         pendingRequests := (pendingRequests st)
            (rid \<mapsto> \<lparr>timeout = nextTimer st, promise = nextPromise st\<rparr>),
         trace := trace st @ [Posted w (ApiRequest rid m ps)]\<rparr>"
    by auto
  then have eqs: "p = nextPromise st" "h = nextTimer st" by simp_all
  from all have st1: "st1 = st\<lparr>promises := (promises st)(nextPromise st \<mapsto> Pending),
         nextPromise := Suc (nextPromise st),
         timers := (timers st)(nextTimer st \<mapsto> RequestTimeout rid (nextPromise st)),
         nextTimer := Suc (nextTimer st),
         pendingRequests := (pendingRequests st)
            (rid \<mapsto> \<lparr>timeout = nextTimer st, promise = nextPromise st\<rparr>),
         trace := trace st @ [Posted w (ApiRequest rid m ps)]\<rparr>"
    by simp
  show "h = nextTimer st" by fact
  from assms(1) show "inFlight st1 rid h p"
    unfolding inFlight_def wellFormed_def eqs st1 by fastforce
  from assms(1) show "wellFormed st1"
    unfolding wellFormed_def st1 by (auto simp: less_Suc_eq)
  show "trace st1 = trace st @ [Posted w (ApiRequest rid m ps)]" by (simp add: st1)
  show "webviewProvider st1 = Some w" by (simp add: st1 assms(2))
  show "config st1 = config st" "conversationHistory st1 = conversationHistory st"
    by (simp_all add: st1)
qed

lemma awaitRequest_inFlight:
  assumes "inFlight st rid h p"
  shows "fst (awaitRequest p h rs st) =
           (case find (\<lambda>r. requestId r = rid) rs of
              None \<Rightarrow> Threw (Error timeoutMessage)
            | Some r \<Rightarrow> if success r then Returned (data r)
                        else Threw (Error (orElse (error r) ''Unknown error'')))"
    and "pendingRequests (snd (awaitRequest p h rs st)) rid = None"
    and "timers (snd (awaitRequest p h rs st)) h = None"
proof -
  let ?st1 = "fireTimer h (deliver rs st)"
  have snd_eq: "snd (awaitRequest p h rs st) = ?st1"
    by (simp add: awaitRequest_def Let_def)
  have fin: "finished ?st1 rid h p
               (case find (\<lambda>r. requestId r = rid) rs of
                  None \<Rightarrow> Rejected (Error timeoutMessage) | Some r \<Rightarrow> replyState r)"
  proof (cases "find (\<lambda>r. requestId r = rid) rs")
    case None
    with deliver_inFlight [OF assms, of rs] have "inFlight (deliver rs st) rid h p" by simp
    then show ?thesis using None by (simp add: fireTimer_inFlight)
  next
    case (Some r)
    with deliver_inFlight [OF assms, of rs]
    have f: "finished (deliver rs st) rid h p (replyState r)" by simp
    then have "timers (deliver rs st) h = None" by (simp add: finished_def)
    then have "?st1 = deliver rs st" by (rule fireTimer_cleared)
    with f Some show ?thesis by simp
  qed
  from fin show "pendingRequests (snd (awaitRequest p h rs st)) rid = None"
    and "timers (snd (awaitRequest p h rs st)) h = None"
    by (simp_all add: snd_eq finished_def)
  from fin show "fst (awaitRequest p h rs st) =
           (case find (\<lambda>r. requestId r = rid) rs of
              None \<Rightarrow> Threw (Error timeoutMessage)
            | Some r \<Rightarrow> if success r then Returned (data r)
                        else Threw (Error (orElse (error r) ''Unknown error'')))"
    by (auto simp: awaitRequest_def Let_def finished_def replyState_def split: option.splits)
qed

lemma awaitRequest_frame:
  "trace (snd (awaitRequest p h rs st)) = trace st"
  "webviewProvider (snd (awaitRequest p h rs st)) = webviewProvider st"
  "config (snd (awaitRequest p h rs st)) = config st"
  "conversationHistory (snd (awaitRequest p h rs st)) = conversationHistory st"
  "wellFormed st \<Longrightarrow> wellFormed (snd (awaitRequest p h rs st))"
  by (simp_all add: awaitRequest_def Let_def fireTimer_frame deliver_frame fireTimer_wellFormed
        deliver_wellFormed)

lemma runAttempt_result:
  assumes "wellFormed st" and "webviewProvider st = Some w"
  shows "fst (runAttempt m ps e st) = attemptOutcome e"
    and "wellFormed (snd (runAttempt m ps e st))"
    and "webviewProvider (snd (runAttempt m ps e st)) = Some w"
    and "trace (snd (runAttempt m ps e st)) =
           trace st @ [Posted w (ApiRequest (genRequestId e) m ps)]"
    and "pendingRequests (snd (runAttempt m ps e st)) (genRequestId e) = None"
    and "timers (snd (runAttempt m ps e st)) (nextTimer st) = None"
    and "config (snd (runAttempt m ps e st)) = config st"
    and "conversationHistory (snd (runAttempt m ps e st)) = conversationHistory st"
proof -
  obtain p h st1 where ex: "promiseExecutor (genRequestId e) m ps st = (p, h, st1)"
    by (cases "promiseExecutor (genRequestId e) m ps st") auto
  note facts = promiseExecutor_inFlight [OF assms ex]
  have run: "runAttempt m ps e st = awaitRequest p h (arrivals e) st1"
    by (simp add: runAttempt_def ex)
  show "fst (runAttempt m ps e st) = attemptOutcome e"
    by (simp add: run awaitRequest_inFlight(1) [OF facts(1)] attemptOutcome_def firstReply_def)
  show "wellFormed (snd (runAttempt m ps e st))"
    by (simp add: run awaitRequest_frame facts)
  show "webviewProvider (snd (runAttempt m ps e st)) = Some w"
    by (simp add: run awaitRequest_frame facts)
  show "trace (snd (runAttempt m ps e st)) =
           trace st @ [Posted w (ApiRequest (genRequestId e) m ps)]"
    by (simp add: run awaitRequest_frame facts)
  show "pendingRequests (snd (runAttempt m ps e st)) (genRequestId e) = None"
    by (simp add: run awaitRequest_inFlight(2) [OF facts(1)])
  show "timers (snd (runAttempt m ps e st)) (nextTimer st) = None"
    using awaitRequest_inFlight(3) [OF facts(1), of "arrivals e"] facts(3) by (simp add: run)
  show "config (snd (runAttempt m ps e st)) = config st"
    and "conversationHistory (snd (runAttempt m ps e st)) = conversationHistory st"
    by (simp_all add: run awaitRequest_frame facts)
qed

lemma wellFormed_trace_update: "wellFormed (st\<lparr>trace := t\<rparr>) = wellFormed st"
  by (simp add: wellFormed_def)

lemma backoff_frame:
  "trace (backoff k rs st) = trace st @ [Waited (2 ^ k * 1000)]"
  "webviewProvider (backoff k rs st) = webviewProvider st"
  "wellFormed st \<Longrightarrow> wellFormed (backoff k rs st)"
  "config (backoff k rs st) = config st"
  "conversationHistory (backoff k rs st) = conversationHistory st"
  by (simp_all add: backoff_def deliver_frame deliver_wellFormed wellFormed_trace_update)


section \<open>Properties of the conversation store\<close>



text \<open>
  C9.  After \<^verbatim>\<open>clearHistory\<close> the history of that conversation reads as empty, whatever it
  held; a conversation that has no entry reads as empty, and clearing it changes nothing.
  Neither function has a failing branch.
\<close>

theorem clear_then_read_empty:
  "getHistory c (clearHistory c st) = [] \<and>
   (conversationHistory st c = None \<longrightarrow> getHistory c st = [] \<and> clearHistory c st = st)"
  by (simp add: getHistory_def clearHistory_def fun_upd_idem)

theorem clear_then_read_empty_witness:
  "conversationHistory (newService \<lparr>cfg_defaultModel = None, cfg_temperature = None,
           cfg_maxTokens = None, cfg_enableStreaming = None, cfg_enableAgentMode = None,
           cfg_agentAutoApply = None\<rparr>) ''never-written'' = None \<and>
   getHistory ''never-written'' (newService \<lparr>cfg_defaultModel = None, cfg_temperature = None,
           cfg_maxTokens = None, cfg_enableStreaming = None, cfg_enableAgentMode = None,
           cfg_agentAutoApply = None\<rparr>) = [] \<and>
   clearHistory ''never-written'' (newService \<lparr>cfg_defaultModel = None, cfg_temperature = None,
           cfg_maxTokens = None, cfg_enableStreaming = None, cfg_enableAgentMode = None,
           cfg_agentAutoApply = None\<rparr>) = newService \<lparr>cfg_defaultModel = None, cfg_temperature = None,
           cfg_maxTokens = None, cfg_enableStreaming = None, cfg_enableAgentMode = None,
           cfg_agentAutoApply = None\<rparr>"
  using clear_then_read_empty [of "''never-written''" "newService \<lparr>cfg_defaultModel = None,
           cfg_temperature = None, cfg_maxTokens = None, cfg_enableStreaming = None,
           cfg_enableAgentMode = None, cfg_agentAutoApply = None\<rparr>"]
  by (simp add: newService_def)


section \<open>Properties of the request bridge\<close>

lemma runAttempt_counters:
  assumes "webviewProvider st = Some w"
  shows "nextTimer (snd (runAttempt m ps e st)) = Suc (nextTimer st)"
    and "nextPromise (snd (runAttempt m ps e st)) = Suc (nextPromise st)"
  by (simp_all add: runAttempt_def promiseExecutor_attached [OF assms] awaitRequest_def Let_def
        fireTimer_frame deliver_frame)

lemma attemptLoop_unfold:
  assumes "wellFormed st" and "webviewProvider st = Some w" and "attempt < retries"
  shows "attemptLoop m ps retries attempt lastError env st =
     (case attemptOutcome (env attempt) of
        Returned v \<Rightarrow> (Returned v, snd (runAttempt m ps (env attempt) st))
      | Suspended q \<Rightarrow> (Suspended q, snd (runAttempt m ps (env attempt) st))
      | Threw e \<Rightarrow>
          if nonRetryable e then (Threw e, snd (runAttempt m ps (env attempt) st))
          else attemptLoop m ps retries (Suc attempt) (Some e) env
                 (if attempt < retries - 1
                  then backoff attempt (stragglers (env attempt))
                         (snd (runAttempt m ps (env attempt) st))
                  else snd (runAttempt m ps (env attempt) st)))"
proof -
  obtain r st2 where run: "runAttempt m ps (env attempt) st = (r, st2)"
    by (cases "runAttempt m ps (env attempt) st") auto
  have "r = attemptOutcome (env attempt)"
    using runAttempt_result(1) [OF assms(1,2), of m ps "env attempt"] by (simp add: run)
  then show ?thesis
    using assms(3)
    by (subst attemptLoop.simps) (simp add: run split: completion.splits)
qed

lemma attemptLoop_exhausted:
  "\<not> attempt < retries \<Longrightarrow>
   attemptLoop m ps retries attempt lastError env st =
     (Threw (Error (''Failed after '' @ string_of_nat retries @ '' attempts: '' @
                    (case lastError of None \<Rightarrow> ''undefined'' | Some e \<Rightarrow> message e))), st)"
  by (subst attemptLoop.simps) simp

lemma string_of_nat_3: "string_of_nat 3 = ''3''"
  by code_simp

lemma digit_inj:
  "n < 10 \<Longrightarrow> m < 10 \<Longrightarrow> ''0123456789'' ! n = ''0123456789'' ! m \<Longrightarrow> n = m"
  by (simp add: nth_eq_iff_index_eq)

lemma digit_not_underscore: "n < 10 \<Longrightarrow> ''0123456789'' ! n \<noteq> CHR ''_''"
proof -
  assume "n < 10"
  then have "''0123456789'' ! n \<in> set ''0123456789''" by (intro nth_mem) simp
  then show ?thesis by auto
qed

lemma string_of_nat_nonempty: "string_of_nat n \<noteq> []"
  by (subst string_of_nat.simps) simp

lemma string_of_nat_no_underscore: "CHR ''_'' \<notin> set (string_of_nat n)"
proof (induction n rule: string_of_nat.induct)
  case (1 n)
  show ?case
  proof (cases "n < 10")
    case True
    then show ?thesis
      using digit_not_underscore [of n] by (subst string_of_nat.simps) auto
  next
    case False
    with "1.IH" digit_not_underscore [of "n mod 10"] show ?thesis
      by (subst string_of_nat.simps) auto
  qed
qed

lemma string_of_nat_inj: "string_of_nat n = string_of_nat m \<Longrightarrow> n = m"
proof (induction n arbitrary: m rule: string_of_nat.induct)
  case (1 n)
  show ?case
  proof (cases "n < 10")
    case small: True
    show ?thesis
    proof (cases "m < 10")
      case True
      with small "1.prems" show ?thesis
        by (simp add: string_of_nat.simps [of n] string_of_nat.simps [of m] digit_inj)
    next
      case False
      with small "1.prems" string_of_nat_nonempty [of "m div 10"] show ?thesis
        by (simp add: string_of_nat.simps [of n] string_of_nat.simps [of m])
    qed
  next
    case big: False
    show ?thesis
    proof (cases "m < 10")
      case True
      with big "1.prems" string_of_nat_nonempty [of "n div 10"] show ?thesis
        by (simp add: string_of_nat.simps [of n] string_of_nat.simps [of m])
    next
      case False
      with big "1.prems" have eq: "string_of_nat (n div 10) = string_of_nat (m div 10)"
        and d: "''0123456789'' ! (n mod 10) = ''0123456789'' ! (m mod 10)"
        by (simp_all add: string_of_nat.simps [of n] string_of_nat.simps [of m])
      from "1.IH" [OF big eq] have "n div 10 = m div 10" .
      moreover from d have "n mod 10 = m mod 10" by (intro digit_inj) simp_all
      ultimately show ?thesis by (metis div_mult_mod_eq)
    qed
  qed
qed

lemma split_at_first:
  assumes "x \<notin> set a" and "x \<notin> set a'" and "a @ x # b = a' @ x # b'"
  shows "a = a' \<and> b = b'"
proof -
  have take_first: "takeWhile (\<lambda>y. y \<noteq> x) (c @ x # d) = c" if "x \<notin> set c" for c d
    using that by (induction c) auto
  have "takeWhile (\<lambda>y. y \<noteq> x) (a @ x # b) = a"
    by (rule take_first [OF assms(1)])
  moreover have "takeWhile (\<lambda>y. y \<noteq> x) (a' @ x # b') = a'"
    by (rule take_first [OF assms(2)])
  ultimately have "a = a'" using assms(3) by simp
  with assms(3) show ?thesis by simp
qed

lemma genRequestId_fresh:
  "genRequestId e = genRequestId e' \<longleftrightarrow>
     now e = now e' \<and> substr 2 9 (random36 e) = substr 2 9 (random36 e')"
proof
  assume "genRequestId e = genRequestId e'"
  then have "string_of_nat (now e) @ CHR ''_'' # substr 2 9 (random36 e) =
             string_of_nat (now e') @ CHR ''_'' # substr 2 9 (random36 e')"
    by (simp add: genRequestId_def)
  from split_at_first [OF string_of_nat_no_underscore string_of_nat_no_underscore this]
  show "now e = now e' \<and> substr 2 9 (random36 e) = substr 2 9 (random36 e')"
    by (auto dest: string_of_nat_inj)
next
  assume "now e = now e' \<and> substr 2 9 (random36 e) = substr 2 9 (random36 e')"
  then show "genRequestId e = genRequestId e'" by (simp add: genRequestId_def)
qed

lemma deliver_absent_stays:
  "pendingRequests st k = None \<Longrightarrow> pendingRequests (deliver rs st) k = None"
  by (induction rs arbitrary: st) (simp_all add: deliver_Nil deliver_Cons handleAPIResponse_pending)

lemma fireTimer_absent_stays:
  "pendingRequests st k = None \<Longrightarrow> pendingRequests (fireTimer h st) k = None"
  by (auto simp: fireTimer_def settle_def Let_def split: option.splits timer_callback.splits)

lemma runAttempt_absent_stays:
  assumes "wellFormed st" and "webviewProvider st = Some w" and "pendingRequests st k = None"
  shows "pendingRequests (snd (runAttempt m ps e st)) k = None"
proof (cases "k = genRequestId e")
  case True
  then show ?thesis using runAttempt_result(5) [OF assms(1,2), of m ps e] by simp
next
  case False
  with assms(3) show ?thesis
    by (simp add: runAttempt_def promiseExecutor_attached [OF assms(2)] awaitRequest_def Let_def
          fireTimer_absent_stays deliver_absent_stays)
qed

lemma backoff_absent_stays:
  "pendingRequests st k = None \<Longrightarrow> pendingRequests (backoff n rs st) k = None"
  by (simp add: backoff_def deliver_absent_stays)

lemma backoff_counters:
  "nextTimer (backoff k rs st) = nextTimer st"
  "nextPromise (backoff k rs st) = nextPromise st"
  by (simp_all add: backoff_def deliver_frame)

text \<open>
  C2.  With a webview attached, if each of the three attempts of \<^verbatim>\<open>callPuterAPI\<close> ends in
  a failure that is not of a non-retryable kind (no reply to its request before the deadline,
  or a failure reply), then the call arms three timers and posts exactly three requests, the
  \<open>i\<close>-th carrying the request id generated in attempt \<open>i\<close>, waits 1000 ms after the
  first and 2000 ms after the second and not after the third, and throws
  \<^verbatim>\<open>Failed after 3 attempts:\<close> followed by the message of the last failure.  The request
  ids are new: two attempts share an id only if they read the same clock value and drew the
  same nine characters, so the three ids are pairwise distinct when the clock advances from
  one attempt to the next.  When the call ends none of the three ids has a pending entry, and
  a late reply to any of them changes nothing.
\<close>

theorem three_retryable_failures:
  assumes "wellFormed st" and "webviewProvider st = Some w"
    and "attemptOutcome (env 0) = Threw e0" and "\<not> nonRetryable e0"
    and "attemptOutcome (env 1) = Threw e1" and "\<not> nonRetryable e1"
    and "attemptOutcome (env 2) = Threw e2" and "\<not> nonRetryable e2"
  shows "fst (callPuterAPI m ps 3 env st) =
           Threw (Error (''Failed after 3 attempts: '' @ message e2)) \<and>
         trace (snd (callPuterAPI m ps 3 env st)) =
           trace st @
           [Posted w (ApiRequest (genRequestId (env 0)) m ps), Waited 1000,
            Posted w (ApiRequest (genRequestId (env 1)) m ps), Waited 2000,
            Posted w (ApiRequest (genRequestId (env 2)) m ps)] \<and>
         nextTimer (snd (callPuterAPI m ps 3 env st)) = nextTimer st + 3 \<and>
         (genRequestId (env i) = genRequestId (env j) \<longleftrightarrow>
            now (env i) = now (env j) \<and>
            substr 2 9 (random36 (env i)) = substr 2 9 (random36 (env j))) \<and>
         (now (env 0) < now (env 1) \<and> now (env 1) < now (env 2) \<longrightarrow>
            distinct [genRequestId (env 0), genRequestId (env 1), genRequestId (env 2)]) \<and>
         (k < 3 \<longrightarrow>
            pendingRequests (snd (callPuterAPI m ps 3 env st)) (genRequestId (env k)) = None \<and>
            (requestId r = genRequestId (env k) \<longrightarrow>
               handleAPIResponse r (snd (callPuterAPI m ps 3 env st)) =
                 snd (callPuterAPI m ps 3 env st)))"
proof -
  let ?one = "Suc 0"
  let ?two = "Suc (Suc 0)"
  let ?a0 = "snd (runAttempt m ps (env 0) st)"
  let ?b0 = "backoff 0 (stragglers (env 0)) ?a0"
  let ?a1 = "snd (runAttempt m ps (env ?one) ?b0)"
  let ?b1 = "backoff ?one (stragglers (env ?one)) ?a1"
  let ?a2 = "snd (runAttempt m ps (env ?two) ?b1)"
  have one: "(1::nat) = ?one" and two: "(2::nat) = ?two"
    by simp_all
  have o1: "attemptOutcome (env ?one) = Threw e1" and o2: "attemptOutcome (env ?two) = Threw e2"
    using assms(5,7) by (simp_all add: numeral_2_eq_2)
  note r0 = runAttempt_result [OF assms(1,2), of m ps "env 0"]
  have wb0: "wellFormed ?b0"
    by (rule backoff_frame(3)) (rule r0(2))
  have pb0: "webviewProvider ?b0 = Some w"
    by (simp only: backoff_frame(2) r0(3))
  note r1 = runAttempt_result [OF wb0 pb0, of m ps "env ?one"]
  have wb1: "wellFormed ?b1"
    by (rule backoff_frame(3)) (rule r1(2))
  have pb1: "webviewProvider ?b1 = Some w"
    by (simp only: backoff_frame(2) r1(3))
  note r2 = runAttempt_result [OF wb1 pb1, of m ps "env ?two"]
  have step0: "attemptLoop m ps 3 0 None env st = attemptLoop m ps 3 ?one (Some e0) env ?b0"
    using attemptLoop_unfold [OF assms(1,2), of 0 3 m ps None env] assms(3,4) by simp
  have step1: "attemptLoop m ps 3 ?one (Some e0) env ?b0 =
               attemptLoop m ps 3 ?two (Some e1) env ?b1"
    using attemptLoop_unfold [OF wb0 pb0, of ?one 3 m ps "Some e0" env] o1 assms(6) by simp
  have step2: "attemptLoop m ps 3 ?two (Some e1) env ?b1 =
               attemptLoop m ps 3 (Suc ?two) (Some e2) env ?a2"
    using attemptLoop_unfold [OF wb1 pb1, of ?two 3 m ps "Some e1" env] o2 assms(8) by simp
  have final: "attemptLoop m ps 3 (Suc ?two) (Some e2) env ?a2 =
      (Threw (Error (''Failed after 3 attempts: '' @ message e2)), ?a2)"
    by (simp add: attemptLoop_exhausted string_of_nat_3)
  have call: "callPuterAPI m ps 3 env st =
      (Threw (Error (''Failed after 3 attempts: '' @ message e2)), ?a2)"
    using assms(2) by (simp add: callPuterAPI_def step0 step1 step2 final)
  have tr: "trace ?a2 = trace st @
           [Posted w (ApiRequest (genRequestId (env 0)) m ps), Waited 1000,
            Posted w (ApiRequest (genRequestId (env ?one)) m ps), Waited 2000,
            Posted w (ApiRequest (genRequestId (env ?two)) m ps)]"
    by (simp only: r2(4) backoff_frame(1) r1(4) r0(4)) simp
  have nt: "nextTimer ?a2 = nextTimer st + 3"
    by (simp add: runAttempt_counters(1) [OF pb1] runAttempt_counters(1) [OF pb0]
          runAttempt_counters(1) [OF assms(2)] backoff_counters)
  have e1: "env 1 = env ?one" and e2: "env 2 = env ?two"
    by (simp_all add: numeral_2_eq_2)
  have c1: "fst (callPuterAPI m ps 3 env st) =
              Threw (Error (''Failed after 3 attempts: '' @ message e2))"
    by (simp add: call)
  have c2: "trace (snd (callPuterAPI m ps 3 env st)) =
           trace st @
           [Posted w (ApiRequest (genRequestId (env 0)) m ps), Waited 1000,
            Posted w (ApiRequest (genRequestId (env 1)) m ps), Waited 2000,
            Posted w (ApiRequest (genRequestId (env 2)) m ps)]"
    by (simp only: call snd_conv e1 e2 tr)
  have c3: "nextTimer (snd (callPuterAPI m ps 3 env st)) = nextTimer st + 3"
    by (simp only: call snd_conv nt)
  have c4: "genRequestId (env i) = genRequestId (env j) \<longleftrightarrow>
            now (env i) = now (env j) \<and>
            substr 2 9 (random36 (env i)) = substr 2 9 (random36 (env j))"
    by (rule genRequestId_fresh)
  have c5: "now (env 0) < now (env 1) \<and> now (env 1) < now (env 2) \<longrightarrow>
            distinct [genRequestId (env 0), genRequestId (env 1), genRequestId (env 2)]"
    by (simp add: genRequestId_fresh)
  have gone2: "pendingRequests ?a2 (genRequestId (env ?two)) = None"
    by (rule r2(5))
  have gone1: "pendingRequests ?a2 (genRequestId (env ?one)) = None"
    by (intro runAttempt_absent_stays [OF wb1 pb1] backoff_absent_stays r1(5))
  have gone0: "pendingRequests ?a2 (genRequestId (env 0)) = None"
    by (intro runAttempt_absent_stays [OF wb1 pb1] backoff_absent_stays
          runAttempt_absent_stays [OF wb0 pb0] r0(5))
  have gone: "pendingRequests ?a2 (genRequestId (env k)) = None" if "k < 3"
  proof -
    from that consider "k = 0" | "k = ?one" | "k = ?two" by arith
    then show ?thesis
      using gone0 gone1 gone2 by cases simp_all
  qed
  have c6: "k < 3 \<longrightarrow>
            pendingRequests (snd (callPuterAPI m ps 3 env st)) (genRequestId (env k)) = None \<and>
            (requestId r = genRequestId (env k) \<longrightarrow>
               handleAPIResponse r (snd (callPuterAPI m ps 3 env st)) =
                 snd (callPuterAPI m ps 3 env st))"
  proof (intro impI conjI)
    assume k: "k < 3"
    show "pendingRequests (snd (callPuterAPI m ps 3 env st)) (genRequestId (env k)) = None"
      by (simp only: call snd_conv gone [OF k])
    assume "requestId r = genRequestId (env k)"
    with gone [OF k] have "handleAPIResponse r ?a2 = ?a2"
      by (simp add: handleAPIResponse_absent)
    then show "handleAPIResponse r (snd (callPuterAPI m ps 3 env st)) =
                 snd (callPuterAPI m ps 3 env st)"
      by (simp only: call snd_conv)
  qed
  from c1 c2 c3 c4 c5 c6 show ?thesis by (intro conjI)
qed

lemma timeout_retryable: "\<not> nonRetryable (Error timeoutMessage)"
  by (simp add: nonRetryable_def Error_def timeoutMessage_def)

lemma wellFormed_attached_new: "wellFormed (setWebviewProvider w (newService c))"
  by (simp add: wellFormed_def setWebviewProvider_def newService_def)

lemma attemptOutcome_no_arrivals:
  "arrivals e = [] \<Longrightarrow> attemptOutcome e = Threw (Error timeoutMessage)"
  by (simp add: attemptOutcome_def firstReply_def)

theorem three_retryable_failures_witness:
  "wellFormed (setWebviewProvider 7 (newService unsetSettings)) \<and>
   webviewProvider (setWebviewProvider 7 (newService unsetSettings)) = Some 7 \<and>
   attemptOutcome \<lparr>now = 17, random36 = ''0.4fzyo82mvyr'', arrivals = [], stragglers = []\<rparr>
     = Threw (Error timeoutMessage) \<and>
   \<not> nonRetryable (Error timeoutMessage) \<and>
   (17::nat) < 17 + 1 \<and> (17::nat) + 1 < 17 + 2 \<and> (2::nat) < 3 \<and>
   fst (callPuterAPI ''chat'' (ChatParams ''hi'' ''gpt-4o'' (7 / 10) 2000) 3
          (\<lambda>i. \<lparr>now = 17 + i, random36 = ''0.4fzyo82mvyr'', arrivals = [], stragglers = []\<rparr>)
          (setWebviewProvider 7 (newService unsetSettings))) =
     Threw (Error (''Failed after 3 attempts: '' @ timeoutMessage)) \<and>
   length (trace (snd (callPuterAPI ''chat'' (ChatParams ''hi'' ''gpt-4o'' (7 / 10) 2000) 3
          (\<lambda>i. \<lparr>now = 17 + i, random36 = ''0.4fzyo82mvyr'', arrivals = [], stragglers = []\<rparr>)
          (setWebviewProvider 7 (newService unsetSettings))))) = 5 \<and>
   distinct
     [genRequestId \<lparr>now = 17 + 0, random36 = ''0.4fzyo82mvyr'', arrivals = [], stragglers = []\<rparr>,
      genRequestId \<lparr>now = 17 + 1, random36 = ''0.4fzyo82mvyr'', arrivals = [], stragglers = []\<rparr>,
      genRequestId \<lparr>now = 17 + 2, random36 = ''0.4fzyo82mvyr'', arrivals = [], stragglers = []\<rparr>] \<and>
   pendingRequests (snd (callPuterAPI ''chat'' (ChatParams ''hi'' ''gpt-4o'' (7 / 10) 2000) 3
          (\<lambda>i. \<lparr>now = 17 + i, random36 = ''0.4fzyo82mvyr'', arrivals = [], stragglers = []\<rparr>)
          (setWebviewProvider 7 (newService unsetSettings))))
     (genRequestId \<lparr>now = 17 + 2, random36 = ''0.4fzyo82mvyr'', arrivals = [],
        stragglers = []\<rparr>) = None"
proof -
  let ?st = "setWebviewProvider 7 (newService unsetSettings)"
  let ?env = "\<lambda>i::nat. \<lparr>now = 17 + i, random36 = ''0.4fzyo82mvyr'', arrivals = [],
                         stragglers = []\<rparr>"
  let ?ps = "ChatParams ''hi'' ''gpt-4o'' (7 / 10) 2000"
  have att: "webviewProvider ?st = Some 7"
    by (simp add: setWebviewProvider_def)
  have out: "attemptOutcome (?env n) = Threw (Error timeoutMessage)" for n
    by (simp add: attemptOutcome_no_arrivals)
  note all = three_retryable_failures [of ?st 7 ?env "Error timeoutMessage"
      "Error timeoutMessage" "Error timeoutMessage" "''chat''" ?ps 0 0 2
      "\<lparr>requestId = [], success = False, data = None, error = None\<rparr>",
      OF wellFormed_attached_new att out timeout_retryable out timeout_retryable
         out timeout_retryable]
  have clock: "now (?env 0) < now (?env 1) \<and> now (?env 1) < now (?env 2)" by simp
  have two: "(2::nat) < 3" by simp
  have res: "fst (callPuterAPI ''chat'' ?ps 3 ?env ?st) =
      Threw (Error (''Failed after 3 attempts: '' @ message (Error timeoutMessage)))"
    by (rule all [THEN conjunct1])
  have tr: "trace (snd (callPuterAPI ''chat'' ?ps 3 ?env ?st)) = trace ?st @
           [Posted 7 (ApiRequest (genRequestId (?env 0)) ''chat'' ?ps), Waited 1000,
            Posted 7 (ApiRequest (genRequestId (?env 1)) ''chat'' ?ps), Waited 2000,
            Posted 7 (ApiRequest (genRequestId (?env 2)) ''chat'' ?ps)]"
    by (rule all [THEN conjunct2, THEN conjunct1])
  have d: "distinct [genRequestId (?env 0), genRequestId (?env 1), genRequestId (?env 2)]"
    by (rule all [THEN conjunct2, THEN conjunct2, THEN conjunct2, THEN conjunct2,
          THEN conjunct1, THEN mp, OF clock])
  have g: "pendingRequests (snd (callPuterAPI ''chat'' ?ps 3 ?env ?st))
      (genRequestId (?env 2)) = None"
    by (rule all [THEN conjunct2, THEN conjunct2, THEN conjunct2, THEN conjunct2,
          THEN conjunct2, THEN mp, OF two, THEN conjunct1])
  have start: "trace ?st = []"
    by (simp add: setWebviewProvider_def newService_def)
  have len: "length (trace (snd (callPuterAPI ''chat'' ?ps 3 ?env ?st))) = 5"
    by (simp only: tr start) simp
  have res': "fst (callPuterAPI ''chat'' ?ps 3 ?env ?st) =
      Threw (Error (''Failed after 3 attempts: '' @ timeoutMessage))"
    using res by (simp add: Error_def)
  from wellFormed_attached_new [of 7 unsetSettings] att out [of 0] timeout_retryable
    res' len d g
  show ?thesis by simp
qed

text \<open>
  C5.  If the attempt that the loop of \<^verbatim>\<open>callPuterAPI\<close> is about to make ends in an error
  whose message contains \<^verbatim>\<open>not initialized\<close>, \<^verbatim>\<open>Invalid model\<close> or
  \<^verbatim>\<open>Authentication failed\<close>, the loop throws that very error after posting this one request
  and arming this one timer: no further request, no backoff delay.  For the first attempt, the
  whole call ends after exactly one posted request.
\<close>

theorem non_retryable_rethrown:
  assumes "wellFormed st" and "webviewProvider st = Some w"
    and "attempt < retries"
    and "attemptOutcome (env attempt) = Threw err" and "nonRetryable err"
  shows "fst (attemptLoop m ps retries attempt lastError env st) = Threw err \<and>
         trace (snd (attemptLoop m ps retries attempt lastError env st)) =
           trace st @ [Posted w (ApiRequest (genRequestId (env attempt)) m ps)] \<and>
         nextTimer (snd (attemptLoop m ps retries attempt lastError env st)) = Suc (nextTimer st) \<and>
         (attempt = 0 \<longrightarrow>
            fst (callPuterAPI m ps retries env st) = Threw err \<and>
            trace (snd (callPuterAPI m ps retries env st)) =
              trace st @ [Posted w (ApiRequest (genRequestId (env 0)) m ps)])"
proof -
  let ?a = "snd (runAttempt m ps (env attempt) st)"
  have loop: "attemptLoop m ps retries attempt previous env st = (Threw err, ?a)" for previous
    using attemptLoop_unfold [OF assms(1,2,3), of m ps previous env] assms(4,5) by simp
  note r = runAttempt_result [OF assms(1,2), of m ps "env attempt"]
  have tr: "trace ?a = trace st @ [Posted w (ApiRequest (genRequestId (env attempt)) m ps)]"
    by (rule r(4))
  have nt: "nextTimer ?a = Suc (nextTimer st)"
    by (rule runAttempt_counters(1) [OF assms(2)])
  have call: "callPuterAPI m ps retries env st = (Threw err, ?a)" if "attempt = 0"
    using assms(2) loop [of None] that by (simp add: callPuterAPI_def)
  show ?thesis
  proof (intro conjI impI)
    show "fst (attemptLoop m ps retries attempt lastError env st) = Threw err"
      by (simp add: loop)
    show "trace (snd (attemptLoop m ps retries attempt lastError env st)) =
            trace st @ [Posted w (ApiRequest (genRequestId (env attempt)) m ps)]"
      by (simp add: loop tr)
    show "nextTimer (snd (attemptLoop m ps retries attempt lastError env st)) = Suc (nextTimer st)"
      by (simp add: loop nt)
  next
    assume zero: "attempt = 0"
    show "fst (callPuterAPI m ps retries env st) = Threw err"
      by (simp add: call [OF zero])
    show "trace (snd (callPuterAPI m ps retries env st)) =
            trace st @ [Posted w (ApiRequest (genRequestId (env 0)) m ps)]"
      using tr zero by (simp add: call [OF zero])
  qed
qed

lemma attemptOutcome_first:
  "arrivals e = r # rest \<Longrightarrow> requestId r = genRequestId e \<Longrightarrow>
   attemptOutcome e =
     (if success r then Returned (data r)
      else Threw (Error (orElse (error r) ''Unknown error'')))"
  by (simp add: attemptOutcome_def firstReply_def)

text \<open>
  C7.  With a webview attached, if the first reply to arrive carries the request id of the
  first attempt, \<^verbatim>\<open>success: true\<close> and data \<open>v\<close>, then \<^verbatim>\<open>callPuterAPI\<close> returns \<open>v\<close>
  after one posted request and one armed timer; that timer was armed by the executor, is
  cleared by \<^verbatim>\<open>handleAPIResponse\<close>, and neither it nor the pending entry of the request
  exists when the call returns.
\<close>

theorem immediate_reply_resolves:
  assumes "wellFormed st" and "webviewProvider st = Some w"
    and "arrivals (env 0) = r # rest" and "requestId r = genRequestId (env 0)"
    and "success r" and "data r = Some v"
  shows "fst (callPuterAPI m ps 3 env st) = Returned (Some v) \<and>
         trace (snd (callPuterAPI m ps 3 env st)) =
           trace st @ [Posted w (ApiRequest (genRequestId (env 0)) m ps)] \<and>
         nextTimer (snd (callPuterAPI m ps 3 env st)) = Suc (nextTimer st) \<and>
         timers (snd (snd (promiseExecutor (genRequestId (env 0)) m ps st))) (nextTimer st) =
           Some (RequestTimeout (genRequestId (env 0)) (nextPromise st)) \<and>
         timers (handleAPIResponse r (snd (snd (promiseExecutor (genRequestId (env 0)) m ps st))))
           (nextTimer st) = None \<and>
         timers (snd (callPuterAPI m ps 3 env st)) (nextTimer st) = None \<and>
         pendingRequests (snd (callPuterAPI m ps 3 env st)) (genRequestId (env 0)) = None"
proof -
  let ?a = "snd (runAttempt m ps (env 0) st)"
  have out: "attemptOutcome (env 0) = Returned (Some v)"
    using attemptOutcome_first [OF assms(3,4)] assms(5,6) by simp
  have call: "callPuterAPI m ps 3 env st = (Returned (Some v), ?a)"
    using attemptLoop_unfold [OF assms(1,2), of 0 3 m ps None env] assms(2) out
    by (simp add: callPuterAPI_def)
  note r = runAttempt_result [OF assms(1,2), of m ps "env 0"]
  have armed: "timers (snd (snd (promiseExecutor (genRequestId (env 0)) m ps st))) (nextTimer st) =
           Some (RequestTimeout (genRequestId (env 0)) (nextPromise st))"
    by (simp add: promiseExecutor_attached [OF assms(2)])
  have cancelled:
    "timers (handleAPIResponse r (snd (snd (promiseExecutor (genRequestId (env 0)) m ps st))))
           (nextTimer st) = None"
    using assms(4,5)
    by (simp add: promiseExecutor_attached [OF assms(2)] handleAPIResponse_def entry_resolve_def
          settle_def clearTimeout_def)
  show ?thesis
    by (simp add: call r(4,5,6) runAttempt_counters(1) [OF assms(2)] armed cancelled)
qed


text \<open>
  C6.  With no webview attached, \<^verbatim>\<open>callPuterAPI\<close> throws
  \<^verbatim>\<open>Webview provider not initialized\<close> and leaves the state as it was (no pending entry,
  no timer, no posted message), for any number of retries; so does \<^verbatim>\<open>chatWithStreaming\<close>
  when streaming is enabled.  The error is of a non-retryable kind.
\<close>

theorem not_initialized_fails_fast:
  "webviewProvider st = None \<longrightarrow>
     callPuterAPI m ps retries env st = (Threw (Error ''Webview provider not initialized''), st) \<and>
     (enableStreaming (getConfig st) \<longrightarrow>
        chatWithStreaming msg systemPrompt ws env st =
          (Threw (Error ''Webview provider not initialized''), st)) \<and>
     nonRetryable (Error ''Webview provider not initialized'')"
  by (simp add: callPuterAPI_def chatWithStreaming_def Let_def nonRetryable_def Error_def)

lemma string_of_nat_17: "string_of_nat 17 = ''17''"
  by code_simp

lemma genRequestId_example:
  "genRequestId \<lparr>now = 17, random36 = ''0.4fzyo82mvyr'', arrivals = rs, stragglers = ss\<rparr> =
     ''req_17_4fzyo82mv''"
  by (simp add: genRequestId_def substr_def string_of_nat_17)

theorem non_retryable_rethrown_witness:
  "wellFormed (setWebviewProvider 7 (newService unsetSettings)) \<and>
   webviewProvider (setWebviewProvider 7 (newService unsetSettings)) = Some 7 \<and>
   (0::nat) < 3 \<and>
   attemptOutcome \<lparr>now = 17, random36 = ''0.4fzyo82mvyr'',
      arrivals = [\<lparr>requestId = ''req_17_4fzyo82mv'', success = False, data = None,
                   error = Some ''Invalid model: gpt-9''\<rparr>], stragglers = []\<rparr> =
     Threw (Error ''Invalid model: gpt-9'') \<and>
   nonRetryable (Error ''Invalid model: gpt-9'') \<and>
   fst (callPuterAPI ''chat'' (ChatParams ''hi'' ''gpt-9'' (7 / 10) 2000) 3
     (\<lambda>i. \<lparr>now = 17, random36 = ''0.4fzyo82mvyr'',
       arrivals = [\<lparr>requestId = ''req_17_4fzyo82mv'', success = False, data = None,
                    error = Some ''Invalid model: gpt-9''\<rparr>], stragglers = []\<rparr>)
     (setWebviewProvider 7 (newService unsetSettings))) =
   Threw (Error ''Invalid model: gpt-9'') \<and>
   trace (snd (callPuterAPI ''chat'' (ChatParams ''hi'' ''gpt-9'' (7 / 10) 2000) 3
     (\<lambda>i. \<lparr>now = 17, random36 = ''0.4fzyo82mvyr'',
       arrivals = [\<lparr>requestId = ''req_17_4fzyo82mv'', success = False, data = None,
                    error = Some ''Invalid model: gpt-9''\<rparr>], stragglers = []\<rparr>)
     (setWebviewProvider 7 (newService unsetSettings)))) =
   [Posted 7 (ApiRequest ''req_17_4fzyo82mv'' ''chat'' (ChatParams ''hi'' ''gpt-9'' (7 / 10) 2000))]"
proof -
  let ?e = "\<lparr>now = 17, random36 = ''0.4fzyo82mvyr'',
      arrivals = [\<lparr>requestId = ''req_17_4fzyo82mv'', success = False, data = None,
                   error = Some ''Invalid model: gpt-9''\<rparr>], stragglers = []\<rparr>"
  have out: "attemptOutcome ?e = Threw (Error ''Invalid model: gpt-9'')"
    by (simp add: attemptOutcome_def firstReply_def genRequestId_example orElse_def)
  have fatal: "nonRetryable (Error ''Invalid model: gpt-9'')"
    by (simp add: nonRetryable_def Error_def)
  have att: "webviewProvider (setWebviewProvider 7 (newService unsetSettings)) = Some 7"
    by (simp add: setWebviewProvider_def)
  have start: "trace (setWebviewProvider 7 (newService unsetSettings)) = []"
    by (simp add: setWebviewProvider_def newService_def)
  have less: "(0::nat) < 3" by simp
  from non_retryable_rethrown [OF wellFormed_attached_new att less, of "\<lambda>i. ?e"
        "Error ''Invalid model: gpt-9''" "''chat''" "ChatParams ''hi'' ''gpt-9'' (7 / 10) 2000" None,
        OF out fatal]
  show ?thesis
    by (simp add: wellFormed_attached_new att out fatal start genRequestId_example)
qed

theorem immediate_reply_resolves_witness:
  "wellFormed (setWebviewProvider 7 (newService unsetSettings)) \<and>
   webviewProvider (setWebviewProvider 7 (newService unsetSettings)) = Some 7 \<and>
   requestId \<lparr>requestId = ''req_17_4fzyo82mv'', success = True, data = Some ''Hello!'',
               error = None\<rparr> =
     genRequestId \<lparr>now = 17, random36 = ''0.4fzyo82mvyr'',
       arrivals = [\<lparr>requestId = ''req_17_4fzyo82mv'', success = True, data = Some ''Hello!'',
                    error = None\<rparr>], stragglers = []\<rparr> \<and>
   fst (callPuterAPI ''chat'' (ChatParams ''hi'' ''gpt-4o'' (7 / 10) 2000) 3
     (\<lambda>i. \<lparr>now = 17, random36 = ''0.4fzyo82mvyr'',
       arrivals = [\<lparr>requestId = ''req_17_4fzyo82mv'', success = True, data = Some ''Hello!'',
                    error = None\<rparr>], stragglers = []\<rparr>)
     (setWebviewProvider 7 (newService unsetSettings))) = Returned (Some ''Hello!'') \<and>
   pendingRequests (snd (callPuterAPI ''chat'' (ChatParams ''hi'' ''gpt-4o'' (7 / 10) 2000) 3
     (\<lambda>i. \<lparr>now = 17, random36 = ''0.4fzyo82mvyr'',
       arrivals = [\<lparr>requestId = ''req_17_4fzyo82mv'', success = True, data = Some ''Hello!'',
                    error = None\<rparr>], stragglers = []\<rparr>)
     (setWebviewProvider 7 (newService unsetSettings)))) ''req_17_4fzyo82mv'' = None \<and>
   timers (snd (callPuterAPI ''chat'' (ChatParams ''hi'' ''gpt-4o'' (7 / 10) 2000) 3
     (\<lambda>i. \<lparr>now = 17, random36 = ''0.4fzyo82mvyr'',
       arrivals = [\<lparr>requestId = ''req_17_4fzyo82mv'', success = True, data = Some ''Hello!'',
                    error = None\<rparr>], stragglers = []\<rparr>)
     (setWebviewProvider 7 (newService unsetSettings)))) 0 = None"
proof -
  let ?r = "\<lparr>requestId = ''req_17_4fzyo82mv'', success = True, data = Some ''Hello!'',
             error = None\<rparr>"
  let ?e = "\<lparr>now = 17, random36 = ''0.4fzyo82mvyr'', arrivals = [?r], stragglers = []\<rparr>"
  have att: "webviewProvider (setWebviewProvider 7 (newService unsetSettings)) = Some 7"
    by (simp add: setWebviewProvider_def)
  have first: "arrivals ((\<lambda>i::nat. ?e) 0) = ?r # []" by simp
  have same: "requestId ?r = genRequestId ((\<lambda>i::nat. ?e) 0)"
    by (simp add: genRequestId_example)
  have ok: "success ?r" and payload: "data ?r = Some ''Hello!''" by simp_all
  have zero: "nextTimer (setWebviewProvider 7 (newService unsetSettings)) = 0"
    by (simp add: setWebviewProvider_def newService_def)
  from immediate_reply_resolves [OF wellFormed_attached_new att first same ok payload,
      of "''chat''" "ChatParams ''hi'' ''gpt-4o'' (7 / 10) 2000"]
  show ?thesis
    by (simp add: wellFormed_attached_new att genRequestId_example zero)
qed


theorem not_initialized_fails_fast_witness:
  "webviewProvider (newService unsetSettings) = None \<and>
   enableStreaming (getConfig (newService unsetSettings)) \<and>
   callPuterAPI ''chat'' (ChatParams ''hi'' ''gpt-4o'' (7 / 10) 2000) 3
     (\<lambda>i. \<lparr>now = 17, random36 = ''0.4fzyo82mvyr'', arrivals = [], stragglers = []\<rparr>)
     (newService unsetSettings) =
     (Threw (Error ''Webview provider not initialized''), newService unsetSettings) \<and>
   chatWithStreaming ''hi'' None \<lparr>workspaceFolders = None, activeTextEditor = None\<rparr>
     (\<lambda>i. \<lparr>now = 17, random36 = ''0.4fzyo82mvyr'', arrivals = [], stragglers = []\<rparr>)
     (newService unsetSettings) =
     (Threw (Error ''Webview provider not initialized''), newService unsetSettings)"
proof -
  have none: "webviewProvider (newService unsetSettings) = None"
    by (simp add: newService_def)
  have on: "enableStreaming (getConfig (newService unsetSettings))"
    by (simp add: getConfig_def newService_def unsetSettings_def)
  from not_initialized_fails_fast [of "newService unsetSettings" "''chat''"
      "ChatParams ''hi'' ''gpt-4o'' (7 / 10) 2000" 3
      "\<lambda>i. \<lparr>now = 17, random36 = ''0.4fzyo82mvyr'', arrivals = [], stragglers = []\<rparr>"
      "''hi''" None "\<lparr>workspaceFolders = None, activeTextEditor = None\<rparr>"] none on
  show ?thesis by simp
qed

section \<open>What a call leaves in the trace\<close>

lemma chunksOf_append: "chunksOf (xs @ ys) = chunksOf xs @ chunksOf ys"
  by (induction xs rule: chunksOf.induct) simp_all

lemma promiseExecutor_trace:
  "trace (snd (snd (promiseExecutor rid m ps st))) =
     trace st @ (case webviewProvider st of
                   None \<Rightarrow> [] | Some w \<Rightarrow> [Posted w (ApiRequest rid m ps)])"
  by (simp add: promiseExecutor_def newPromise_def setTimeout_def settle_def split: option.splits)

lemma runAttempt_trace:
  "trace (snd (runAttempt m ps e st)) =
     trace st @ (case webviewProvider st of
                   None \<Rightarrow> [] | Some w \<Rightarrow> [Posted w (ApiRequest (genRequestId e) m ps)])"
proof -
  obtain p h st1 where ex: "promiseExecutor (genRequestId e) m ps st = (p, h, st1)"
    by (cases "promiseExecutor (genRequestId e) m ps st") auto
  with promiseExecutor_trace [of "genRequestId e" m ps st] show ?thesis
    by (simp add: runAttempt_def awaitRequest_frame(1))
qed

lemma attemptLoop_trace:
  "\<exists>ext. trace (snd (attemptLoop m ps retries attempt lastError env st)) = trace st @ ext \<and>
         chunksOf ext = [] \<and> list_all (\<lambda>x. \<not> isStreamRequest x) ext"
proof (induction m ps retries attempt lastError env st rule: attemptLoop.induct)
  case (1 m ps retries attempt lastError env st)
  show ?case
  proof (cases "attempt < retries")
    case False
    then show ?thesis by (subst attemptLoop.simps) simp
  next
    case True
    obtain r st2 where run: "runAttempt m ps (env attempt) st = (r, st2)"
      by (cases "runAttempt m ps (env attempt) st") auto
    have "trace st2 = trace (snd (runAttempt m ps (env attempt) st))" by (simp add: run)
    then obtain ext1 where t2: "trace st2 = trace st @ ext1" and q1: "chunksOf ext1 = []"
      "list_all (\<lambda>x. \<not> isStreamRequest x) ext1"
      by (auto simp: runAttempt_trace split: option.splits)
    show ?thesis
    proof (cases r)
      case (Returned v)
      with True run t2 q1 show ?thesis by (subst attemptLoop.simps) simp
    next
      case (Suspended q)
      with True run t2 q1 show ?thesis by (subst attemptLoop.simps) simp
    next
      case (Threw e)
      show ?thesis
      proof (cases "nonRetryable e")
        case True
        with \<open>attempt < retries\<close> Threw run t2 q1 show ?thesis
          by (subst attemptLoop.simps) simp
      next
        case False
        let ?st3 = "if attempt < retries - 1
                    then backoff attempt (stragglers (env attempt)) st2 else st2"
        from "1.IH" [OF \<open>attempt < retries\<close> run [symmetric] Threw False]
        obtain ext2 where
          t3: "trace (snd (attemptLoop m ps retries (Suc attempt) (Some e) env ?st3)) =
                 trace ?st3 @ ext2"
          and q2: "chunksOf ext2 = []" "list_all (\<lambda>x. \<not> isStreamRequest x) ext2"
          by blast
        obtain w where t3': "trace ?st3 = trace st2 @ w" and qw: "chunksOf w = []"
          "list_all (\<lambda>x. \<not> isStreamRequest x) w"
          by (cases "attempt < retries - 1") (simp_all add: backoff_frame(1))
        have loop: "attemptLoop m ps retries attempt lastError env st =
                      attemptLoop m ps retries (Suc attempt) (Some e) env ?st3"
          using \<open>attempt < retries\<close> run Threw False by (subst attemptLoop.simps) simp
        have "trace (snd (attemptLoop m ps retries attempt lastError env st)) =
                trace st @ (ext1 @ w @ ext2)"
          by (simp only: loop t3 t3' t2 append_assoc)
        moreover have "chunksOf (ext1 @ w @ ext2) = []"
          by (simp add: chunksOf_append q1 qw q2)
        moreover have "list_all (\<lambda>x. \<not> isStreamRequest x) (ext1 @ w @ ext2)"
          by (simp add: q1 qw q2)
        ultimately show ?thesis by blast
      qed
    qed
  qed
qed

lemma chat_trace:
  "\<exists>ext. trace (snd (chat msg sp ws env st)) = trace st @ ext \<and>
         chunksOf ext = [] \<and> list_all (\<lambda>x. \<not> isStreamRequest x) ext"
proof (cases "getWorkspaceContext ws")
  case (Inl e)
  then show ?thesis by (simp add: chat_def)
next
  case (Inr ctx)
  let ?ps = "ChatParams (fullPrompt sp ctx msg) (model (getConfig st))
               (temperature (getConfig st)) (maxTokens (getConfig st))"
  have snd_eq: "snd (chat msg sp ws env st) = snd (callPuterAPI ''chat'' ?ps 3 env st)"
    using Inr by (simp add: chat_def Let_def split: prod.splits completion.splits)
  show ?thesis
  proof (cases "webviewProvider st")
    case None
    then show ?thesis by (simp add: snd_eq callPuterAPI_def)
  next
    case (Some w)
    then show ?thesis
      using attemptLoop_trace [of "''chat''" ?ps 3 0 None env st]
      by (simp add: snd_eq callPuterAPI_def)
  qed
qed

section \<open>Streaming switched off\<close>

lemma callPuterAPI_first_outcome:
  assumes "wellFormed st" and "webviewProvider st = Some w" and "0 < retries"
    and "attemptOutcome (env 0) = Returned v"
  shows "callPuterAPI m ps retries env st = (Returned v, snd (runAttempt m ps (env 0) st))"
  using attemptLoop_unfold [OF assms(1,2,3), of m ps None env] assms(2,4)
  by (simp add: callPuterAPI_def)

lemma chat_first_outcome:
  assumes "wellFormed st" and "webviewProvider st = Some w"
    and "getWorkspaceContext ws = Inr ctx"
    and "attemptOutcome (env 0) = Returned v"
  shows "fst (chat msg sp ws env st) = Returned v"
proof -
  have "0 < (3::nat)" by simp
  from callPuterAPI_first_outcome [of st w 3 env v, OF assms(1,2) this assms(4)] assms(3)
  show ?thesis by (simp add: chat_def Let_def)
qed

text \<open>
  C10.  With \<^verbatim>\<open>enableStreaming\<close> false, \<^verbatim>\<open>chatWithStreaming\<close> ends as \<^verbatim>\<open>chat\<close> on the same
  arguments ends: when \<^verbatim>\<open>chat\<close> returns \<open>v\<close> it returns after one call of \<^verbatim>\<open>onChunk\<close>, with
  \<open>v\<close>, made after everything \<^verbatim>\<open>chat\<close> did; when \<^verbatim>\<open>chat\<close> throws it throws the same error
  and \<^verbatim>\<open>onChunk\<close> is not called.  No stream request is posted.
\<close>

theorem streaming_disabled_delegates:
  assumes "\<not> enableStreaming (getConfig st)"
  shows "(case chat msg sp ws env st of
            (Returned v, st') \<Rightarrow>
              chatWithStreaming msg sp ws env st =
                (Returned (), st'\<lparr>trace := trace st' @ [Chunk v]\<rparr>) \<and>
              chunksOf (drop (length (trace st)) (trace st')) = []
          | (Threw e, st') \<Rightarrow> chatWithStreaming msg sp ws env st = (Threw e, st')
          | (Suspended q, st') \<Rightarrow> chatWithStreaming msg sp ws env st = (Suspended q, st')) \<and>
         chunksOf (drop (length (trace st)) (trace (snd (chatWithStreaming msg sp ws env st)))) =
           (case fst (chat msg sp ws env st) of Returned v \<Rightarrow> [v] | _ \<Rightarrow> []) \<and>
         list_all (\<lambda>x. \<not> isStreamRequest x)
           (drop (length (trace st)) (trace (snd (chatWithStreaming msg sp ws env st))))"
proof -
  obtain r st' where c: "chat msg sp ws env st = (r, st')"
    by (cases "chat msg sp ws env st") auto
  from chat_trace [of msg sp ws env st] c obtain ext where
    t: "trace st' = trace st @ ext" and q: "chunksOf ext = []"
    "list_all (\<lambda>x. \<not> isStreamRequest x) ext"
    by auto
  show ?thesis
    using assms
    by (cases r) (simp_all add: chatWithStreaming_def Let_def c t q chunksOf_append)
qed

theorem streaming_disabled_delegates_witness:
  "\<not> enableStreaming (getConfig (setWebviewProvider 7
        (newService (unsetSettings\<lparr>cfg_enableStreaming := Some False\<rparr>)))) \<and>
   fst (chat ''hi'' None \<lparr>workspaceFolders = None, activeTextEditor = None\<rparr>
     (\<lambda>i. \<lparr>now = 17, random36 = ''0.4fzyo82mvyr'',
       arrivals = [\<lparr>requestId = ''req_17_4fzyo82mv'', success = True, data = Some ''Hello!'',
                    error = None\<rparr>], stragglers = []\<rparr>)
     (setWebviewProvider 7 (newService (unsetSettings\<lparr>cfg_enableStreaming := Some False\<rparr>)))) =
     Returned (Some ''Hello!'') \<and>
   fst (chatWithStreaming ''hi'' None \<lparr>workspaceFolders = None, activeTextEditor = None\<rparr>
     (\<lambda>i. \<lparr>now = 17, random36 = ''0.4fzyo82mvyr'',
       arrivals = [\<lparr>requestId = ''req_17_4fzyo82mv'', success = True, data = Some ''Hello!'',
                    error = None\<rparr>], stragglers = []\<rparr>)
     (setWebviewProvider 7 (newService (unsetSettings\<lparr>cfg_enableStreaming := Some False\<rparr>)))) =
     Returned () \<and>
   chunksOf (trace (snd (chatWithStreaming ''hi'' None
     \<lparr>workspaceFolders = None, activeTextEditor = None\<rparr>
     (\<lambda>i. \<lparr>now = 17, random36 = ''0.4fzyo82mvyr'',
       arrivals = [\<lparr>requestId = ''req_17_4fzyo82mv'', success = True, data = Some ''Hello!'',
                    error = None\<rparr>], stragglers = []\<rparr>)
     (setWebviewProvider 7 (newService (unsetSettings\<lparr>cfg_enableStreaming := Some False\<rparr>)))))) =
     [Some ''Hello!'']"
proof -
  let ?st = "setWebviewProvider 7 (newService (unsetSettings\<lparr>cfg_enableStreaming := Some False\<rparr>))"
  let ?ws = "\<lparr>workspaceFolders = None, activeTextEditor = None\<rparr>"
  let ?r = "\<lparr>requestId = ''req_17_4fzyo82mv'', success = True, data = Some ''Hello!'',
             error = None\<rparr>"
  let ?env = "\<lambda>i::nat. \<lparr>now = 17, random36 = ''0.4fzyo82mvyr'', arrivals = [?r],
                         stragglers = []\<rparr>"
  have off: "\<not> enableStreaming (getConfig ?st)"
    by (simp add: getConfig_def setWebviewProvider_def newService_def)
  have att: "webviewProvider ?st = Some 7"
    by (simp add: setWebviewProvider_def)
  have ctx: "getWorkspaceContext ?ws = Inr ''No workspace open''"
    by (simp add: getWorkspaceContext_def)
  have out: "attemptOutcome (?env 0) = Returned (Some ''Hello!'')"
    by (simp add: attemptOutcome_def firstReply_def genRequestId_example)
  have c: "fst (chat ''hi'' None ?ws ?env ?st) = Returned (Some ''Hello!'')"
    by (rule chat_first_outcome [of ?st 7 ?ws _ ?env, OF wellFormed_attached_new att ctx out])
  have start: "trace ?st = []"
    by (simp add: setWebviewProvider_def newService_def)
  from streaming_disabled_delegates [OF off, of "''hi''" None ?ws ?env] c off start
  show ?thesis
    by (auto split: prod.splits)
qed

section \<open>Agent replies\<close>

lemma matchBraces_block:
  assumes "CHR ''{'' \<notin> set a" and "CHR ''}'' \<notin> set c"
  shows "matchBraces (a @ CHR ''{'' # b @ CHR ''}'' # c) = Some (CHR ''{'' # b @ ''}'')"
proof -
  have open1: "dropWhile (\<lambda>x. x \<noteq> CHR ''{'') (a @ CHR ''{'' # b @ CHR ''}'' # c) =
                 CHR ''{'' # b @ CHR ''}'' # c"
    using assms(1) by (auto simp: dropWhile_append)
  have close1: "dropWhile (\<lambda>x. x \<noteq> CHR ''}'') (rev (b @ CHR ''}'' # c)) = CHR ''}'' # rev b"
    using assms(2) by (auto simp: dropWhile_append)
  have tl1: "tl (CHR ''{'' # b @ CHR ''}'' # c) = b @ CHR ''}'' # c" by simp
  show ?thesis
    unfolding matchBraces_def Let_def open1 tl1 close1 by simp
qed

lemma closing_after_opening:
  "CHR ''}'' \<in> set (tl (dropWhile (\<lambda>x. x \<noteq> CHR ''{'') (a @ CHR ''{'' # b @ CHR ''}'' # c)))"
  by (induction a) simp_all

lemma matchBraces_None_iff:
  "matchBraces s = None \<longleftrightarrow> \<not> (\<exists>a b c. s = a @ CHR ''{'' # b @ CHR ''}'' # c)"
proof
  assume none: "matchBraces s = None"
  show "\<not> (\<exists>a b c. s = a @ CHR ''{'' # b @ CHR ''}'' # c)"
  proof
    assume "\<exists>a b c. s = a @ CHR ''{'' # b @ CHR ''}'' # c"
    then obtain a b c where s: "s = a @ CHR ''{'' # b @ CHR ''}'' # c" by blast
    let ?from = "dropWhile (\<lambda>x. x \<noteq> CHR ''{'') s"
    have mem: "CHR ''}'' \<in> set (tl ?from)"
      unfolding s by (rule closing_after_opening)
    have "?from \<noteq> []"
    proof
      assume e: "?from = []"
      from mem show False unfolding e by simp
    qed
    moreover from mem have "dropWhile (\<lambda>x. x \<noteq> CHR ''}'') (rev (tl ?from)) \<noteq> []"
      by (simp add: dropWhile_eq_Nil_conv)
    ultimately have "matchBraces s \<noteq> None"
      by (simp add: matchBraces_def Let_def)
    with none show False by simp
  qed
next
  assume no: "\<not> (\<exists>a b c. s = a @ CHR ''{'' # b @ CHR ''}'' # c)"
  let ?from = "dropWhile (\<lambda>x. x \<noteq> CHR ''{'') s"
  show "matchBraces s = None"
  proof (rule ccontr)
    assume "matchBraces s \<noteq> None"
    then have ne: "?from \<noteq> []"
      and cl: "dropWhile (\<lambda>x. x \<noteq> CHR ''}'') (rev (tl ?from)) \<noteq> []"
      by (auto simp: matchBraces_def Let_def split: if_splits)
    from ne have "hd ?from = CHR ''{''"
      using hd_dropWhile [of "\<lambda>x. x \<noteq> CHR ''{''" s] by simp
    with ne have from_eq: "?from = CHR ''{'' # tl ?from"
      by (cases ?from) simp_all
    from cl have "CHR ''}'' \<in> set (tl ?from)"
      by (auto simp: dropWhile_eq_Nil_conv)
    then obtain b c where tl_eq: "tl ?from = b @ CHR ''}'' # c"
      by (auto simp: in_set_conv_decomp)
    have "s = takeWhile (\<lambda>x. x \<noteq> CHR ''{'') s @ ?from" by simp
    also have "\<dots> = takeWhile (\<lambda>x. x \<noteq> CHR ''{'') s @ CHR ''{'' # b @ CHR ''}'' # c"
      using from_eq tl_eq by simp
    finally show False using no by blast
  qed
qed

text \<open>
  C8.  Let \<^verbatim>\<open>chat\<close> return the text \<open>text\<close> to \<^verbatim>\<open>agentModifyCode\<close>.  If no opening brace
  of \<open>text\<close> is followed by a closing brace, the call returns the object with
  \<^verbatim>\<open>modifiedCode\<close> equal to the code passed in and \<^verbatim>\<open>changesSummary\<close> equal to
  \<^verbatim>\<open>No changes made\<close>.  If \<open>text\<close> has a block from its first opening brace to its last
  closing brace and \<^verbatim>\<open>JSON.parse\<close> throws \<open>e\<close> on that block, the call throws
  \<^verbatim>\<open>Failed to parse agent response:\<close> followed by \<open>e\<close>.
\<close>

theorem agent_reply_policies:
  assumes "chat (agentPrompt instruction code language filePath)
             (Some ''You are an expert code modification agent. Always respond with valid JSON.'')
             ws env st = (Returned (Some text), st')"
  shows "(\<not> (\<exists>a b c. text = a @ CHR ''{'' # b @ CHR ''}'' # c) \<longrightarrow>
            agentModifyCode jsonParse instruction code language filePath ws env st =
              (Returned (JObject [(''modifiedCode'', JString code),
                                  (''explanation'', JString ''Could not parse agent response''),
                                  (''changesSummary'', JString ''No changes made'')]), st')) \<and>
         (text = a @ CHR ''{'' # b @ CHR ''}'' # c \<and> CHR ''{'' \<notin> set a \<and> CHR ''}'' \<notin> set c \<and>
          jsonParse (CHR ''{'' # b @ ''}'') = Inl e \<longrightarrow>
            agentModifyCode jsonParse instruction code language filePath ws env st =
              (Threw (Error (''Failed to parse agent response: '' @ toString e)), st'))"
proof (intro conjI impI)
  assume "\<not> (\<exists>a b c. text = a @ CHR ''{'' # b @ CHR ''}'' # c)"
  then have "matchBraces text = None" by (simp add: matchBraces_None_iff)
  then show "agentModifyCode jsonParse instruction code language filePath ws env st =
              (Returned (JObject [(''modifiedCode'', JString code),
                                  (''explanation'', JString ''Could not parse agent response''),
                                  (''changesSummary'', JString ''No changes made'')]), st')"
    by (simp add: agentModifyCode_def assms extractModification_def)
next
  assume h: "text = a @ CHR ''{'' # b @ CHR ''}'' # c \<and> CHR ''{'' \<notin> set a \<and> CHR ''}'' \<notin> set c \<and>
          jsonParse (CHR ''{'' # b @ ''}'') = Inl e"
  then have "matchBraces text = Some (CHR ''{'' # b @ ''}'')"
    by (simp add: matchBraces_block)
  with h show "agentModifyCode jsonParse instruction code language filePath ws env st =
              (Threw (Error (''Failed to parse agent response: '' @ toString e)), st')"
    by (simp add: agentModifyCode_def assms extractModification_def)
qed

theorem agent_reply_policies_witness:
  "\<not> (\<exists>a b c. ''I cannot help with that.'' = a @ CHR ''{'' # b @ CHR ''}'' # c) \<and>
   fst (agentModifyCode (\<lambda>s. Inl (JsError ''SyntaxError'' ''Unexpected token n''))
          ''rename x'' ''let x = 1;'' ''javascript'' ''a.js''
          \<lparr>workspaceFolders = None, activeTextEditor = None\<rparr>
          (\<lambda>i. \<lparr>now = 17, random36 = ''0.4fzyo82mvyr'',
             arrivals = [\<lparr>requestId = ''req_17_4fzyo82mv'', success = True,
                          data = Some ''I cannot help with that.'', error = None\<rparr>],
             stragglers = []\<rparr>)
          (setWebviewProvider 7 (newService unsetSettings))) =
     Returned (JObject [(''modifiedCode'', JString ''let x = 1;''),
                        (''explanation'', JString ''Could not parse agent response''),
                        (''changesSummary'', JString ''No changes made'')]) \<and>
   fst (agentModifyCode (\<lambda>s. Inl (JsError ''SyntaxError'' ''Unexpected token n''))
          ''rename x'' ''let x = 1;'' ''javascript'' ''a.js''
          \<lparr>workspaceFolders = None, activeTextEditor = None\<rparr>
          (\<lambda>i. \<lparr>now = 17, random36 = ''0.4fzyo82mvyr'',
             arrivals = [\<lparr>requestId = ''req_17_4fzyo82mv'', success = True,
                          data = Some ''Here: {not json} done'', error = None\<rparr>],
             stragglers = []\<rparr>)
          (setWebviewProvider 7 (newService unsetSettings))) =
     Threw (Error ''Failed to parse agent response: SyntaxError: Unexpected token n'')"
proof -
  let ?st = "setWebviewProvider 7 (newService unsetSettings)"
  let ?ws = "\<lparr>workspaceFolders = None, activeTextEditor = None\<rparr>"
  let ?jp = "\<lambda>s::string. (Inl (JsError ''SyntaxError'' ''Unexpected token n'') :: jsError + json)"
  let ?sys = "Some ''You are an expert code modification agent. Always respond with valid JSON.''"
  let ?prompt = "agentPrompt ''rename x'' ''let x = 1;'' ''javascript'' ''a.js''"
  let ?envA = "\<lambda>i::nat. \<lparr>now = 17, random36 = ''0.4fzyo82mvyr'',
             arrivals = [\<lparr>requestId = ''req_17_4fzyo82mv'', success = True,
                          data = Some ''I cannot help with that.'', error = None\<rparr>],
             stragglers = []\<rparr>"
  let ?envB = "\<lambda>i::nat. \<lparr>now = 17, random36 = ''0.4fzyo82mvyr'',
             arrivals = [\<lparr>requestId = ''req_17_4fzyo82mv'', success = True,
                          data = Some ''Here: {not json} done'', error = None\<rparr>],
             stragglers = []\<rparr>"
  have att: "webviewProvider ?st = Some 7"
    by (simp add: setWebviewProvider_def)
  have ctx: "getWorkspaceContext ?ws = Inr ''No workspace open''"
    by (simp add: getWorkspaceContext_def)
  have outA: "attemptOutcome (?envA 0) = Returned (Some ''I cannot help with that.'')"
    by (simp add: attemptOutcome_def firstReply_def genRequestId_example)
  have outB: "attemptOutcome (?envB 0) = Returned (Some ''Here: {not json} done'')"
    by (simp add: attemptOutcome_def firstReply_def genRequestId_example)
  have chatA: "chat ?prompt ?sys ?ws ?envA ?st =
                 (Returned (Some ''I cannot help with that.''), snd (chat ?prompt ?sys ?ws ?envA ?st))"
    using chat_first_outcome [of ?st 7 ?ws _ ?envA, OF wellFormed_attached_new att ctx outA]
    by (simp add: prod_eq_iff)
  have chatB: "chat ?prompt ?sys ?ws ?envB ?st =
                 (Returned (Some ''Here: {not json} done''), snd (chat ?prompt ?sys ?ws ?envB ?st))"
    using chat_first_outcome [of ?st 7 ?ws _ ?envB, OF wellFormed_attached_new att ctx outB]
    by (simp add: prod_eq_iff)
  have plain: "\<not> (\<exists>a b c. ''I cannot help with that.'' = a @ CHR ''{'' # b @ CHR ''}'' # c)"
    unfolding matchBraces_None_iff [symmetric] by (simp add: matchBraces_def)
  have block: "''Here: {not json} done'' = ''Here: '' @ CHR ''{'' # ''not json'' @ CHR ''}'' # '' done'' \<and>
               CHR ''{'' \<notin> set ''Here: '' \<and> CHR ''}'' \<notin> set '' done'' \<and>
               ?jp (CHR ''{'' # ''not json'' @ ''}'') = Inl (JsError ''SyntaxError'' ''Unexpected token n'')"
    by simp
  from agent_reply_policies [OF chatA, where jsonParse = ?jp, THEN conjunct1, THEN mp, OF plain]
  have a: "fst (agentModifyCode ?jp ''rename x'' ''let x = 1;'' ''javascript'' ''a.js'' ?ws ?envA ?st) =
     Returned (JObject [(''modifiedCode'', JString ''let x = 1;''),
                        (''explanation'', JString ''Could not parse agent response''),
                        (''changesSummary'', JString ''No changes made'')])"
    by simp
  from agent_reply_policies [OF chatB, where jsonParse = ?jp and a = "''Here: ''"
      and b = "''not json''" and c = "'' done''"
      and e = "JsError ''SyntaxError'' ''Unexpected token n''", THEN conjunct2, THEN mp,
      OF block]
  have b: "fst (agentModifyCode ?jp ''rename x'' ''let x = 1;'' ''javascript'' ''a.js'' ?ws ?envB ?st) =
     Threw (Error ''Failed to parse agent response: SyntaxError: Unexpected token n'')"
    by simp
  from plain a b show ?thesis by (intro conjI)
qed

section \<open>Streaming switched on\<close>

lemma genStreamId_example:
  "genStreamId \<lparr>now = 17, random36 = ''0.4fzyo82mvyr'', arrivals = rs, stragglers = ss\<rparr> =
     ''stream_17_4fzyo82mv''"
  by (simp add: genStreamId_def substr_def string_of_nat_17)

lemma listener_if_attached:
  assumes "promises st p = Some Pending"
  shows "promises (listener rid p (StreamEnd rid) st) p = Some (Fulfilled None)"
    and "promises (listener rid p (StreamError rid err) st) p = Some (Rejected (Error err))"
    and "trace (listener rid p (StreamChunk rid chunk) st) = trace st @ [Chunk chunk]"
  using assms by (simp_all add: settle_def)

lemma onDidReceiveMessage_keeps_pending:
  assumes "promises st p = Some Pending"
    and "\<forall>rid e. pendingRequests st rid = Some e \<longrightarrow> promise e \<noteq> p"
  shows "promises (onDidReceiveMessage msg st) p = Some Pending"
    and "\<forall>rid e. pendingRequests (onDidReceiveMessage msg st) rid = Some e \<longrightarrow> promise e \<noteq> p"
    and "chunksOf (trace (onDidReceiveMessage msg st)) = chunksOf (trace st)"
proof -
  show "promises (onDidReceiveMessage msg st) p = Some Pending"
    using assms
    by (cases msg)
       (auto simp: handleAPIResponse_def entry_resolve_def entry_reject_def settle_def
          clearTimeout_def clearHistory_def Let_def split: option.splits)
  show "\<forall>rid e. pendingRequests (onDidReceiveMessage msg st) rid = Some e \<longrightarrow> promise e \<noteq> p"
    using assms(2)
    by (cases msg)
       (auto simp: handleAPIResponse_pending clearHistory_def split: option.splits if_splits)
  show "chunksOf (trace (onDidReceiveMessage msg st)) = chunksOf (trace st)"
    by (cases msg)
       (auto simp: handleAPIResponse_frame clearHistory_def chunksOf_append split: option.splits)
qed

lemma receiveAll_keeps_pending:
  "promises st p = Some Pending \<Longrightarrow>
   \<forall>rid e. pendingRequests st rid = Some e \<longrightarrow> promise e \<noteq> p \<Longrightarrow>
   promises (receiveAll msgs st) p = Some Pending \<and>
   chunksOf (trace (receiveAll msgs st)) = chunksOf (trace st)"
proof (induction msgs arbitrary: st)
  case Nil
  then show ?case by (simp add: receiveAll_def)
next
  case (Cons msg msgs)
  note step = onDidReceiveMessage_keeps_pending [OF Cons.prems, of msg]
  from Cons.IH [OF step(1,2)] step(3) show ?case
    by (simp add: receiveAll_def)
qed

lemma streaming_promise_never_settles:
  assumes "wellFormed st" and "webviewProvider st = Some w"
    and "enableStreaming (getConfig st)" and "getWorkspaceContext ws = Inr ctx"
  shows "fst (chatWithStreaming msg sp ws env st) = Suspended (nextPromise st)"
    and "promises (receiveAll msgs (snd (chatWithStreaming msg sp ws env st))) (nextPromise st) =
           Some Pending"
    and "chunksOf (trace (receiveAll msgs (snd (chatWithStreaming msg sp ws env st)))) =
           chunksOf (trace st)"
proof -
  let ?st1 = "snd (chatWithStreaming msg sp ws env st)"
  have st1: "?st1 = st\<lparr>promises := (promises st)(nextPromise st \<mapsto> Pending),
                nextPromise := Suc (nextPromise st),
                trace := trace st @ [Posted w (StreamRequest (genStreamId (env 0))
                   (fullPrompt sp ctx msg) (model (getConfig st)) (temperature (getConfig st))
                   (maxTokens (getConfig st)))]\<rparr>"
    using assms(2,3,4) by (simp add: chatWithStreaming_def Let_def newPromise_def)
  show "fst (chatWithStreaming msg sp ws env st) = Suspended (nextPromise st)"
    using assms(2,3,4) by (simp add: chatWithStreaming_def Let_def newPromise_def)
  have p: "promises ?st1 (nextPromise st) = Some Pending"
    by (simp add: st1)
  have others: "\<forall>rid e. pendingRequests ?st1 rid = Some e \<longrightarrow> promise e \<noteq> nextPromise st"
    using assms(1) unfolding st1 wellFormed_def by fastforce
  have tr: "chunksOf (trace ?st1) = chunksOf (trace st)"
    by (simp add: st1 chunksOf_append)
  from receiveAll_keeps_pending [OF p others, of msgs] tr
  show "promises (receiveAll msgs ?st1) (nextPromise st) = Some Pending"
    and "chunksOf (trace (receiveAll msgs ?st1)) = chunksOf (trace st)"
    by simp_all
qed

text \<open>
  C3, at a concrete input.  Streaming is enabled (the default) and a webview is attached.
  \<^verbatim>\<open>chatWithStreaming\<close> posts the stream request and waits on promise 0.  The webview
  answers with two chunks and the end signal for the same request id.  No chunk reaches
  \<^verbatim>\<open>onChunk\<close> and the promise is still pending.
\<close>

theorem stream_end_never_completes:
  "fst (chatWithStreaming ''hi'' None \<lparr>workspaceFolders = None, activeTextEditor = None\<rparr>
         (\<lambda>i. \<lparr>now = 17, random36 = ''0.4fzyo82mvyr'', arrivals = [], stragglers = []\<rparr>)
         (setWebviewProvider 7 (newService unsetSettings))) = Suspended 0 \<and>
   trace (snd (chatWithStreaming ''hi'' None \<lparr>workspaceFolders = None, activeTextEditor = None\<rparr>
         (\<lambda>i. \<lparr>now = 17, random36 = ''0.4fzyo82mvyr'', arrivals = [], stragglers = []\<rparr>)
         (setWebviewProvider 7 (newService unsetSettings)))) =
     [Posted 7 (StreamRequest ''stream_17_4fzyo82mv'' ''hi'' ''claude-sonnet-4-5'' (7 / 10) 2000)] \<and>
   promises (receiveAll
       [StreamChunk ''stream_17_4fzyo82mv'' (Some ''Hel''),
        StreamChunk ''stream_17_4fzyo82mv'' (Some ''lo''),
        StreamEnd ''stream_17_4fzyo82mv'']
       (snd (chatWithStreaming ''hi'' None \<lparr>workspaceFolders = None, activeTextEditor = None\<rparr>
         (\<lambda>i. \<lparr>now = 17, random36 = ''0.4fzyo82mvyr'', arrivals = [], stragglers = []\<rparr>)
         (setWebviewProvider 7 (newService unsetSettings))))) 0 = Some Pending \<and>
   chunksOf (trace (receiveAll
       [StreamChunk ''stream_17_4fzyo82mv'' (Some ''Hel''),
        StreamChunk ''stream_17_4fzyo82mv'' (Some ''lo''),
        StreamEnd ''stream_17_4fzyo82mv'']
       (snd (chatWithStreaming ''hi'' None \<lparr>workspaceFolders = None, activeTextEditor = None\<rparr>
         (\<lambda>i. \<lparr>now = 17, random36 = ''0.4fzyo82mvyr'', arrivals = [], stragglers = []\<rparr>)
         (setWebviewProvider 7 (newService unsetSettings)))))) = []"
  by (simp add: chatWithStreaming_def Let_def getConfig_def unsetSettings_def
        setWebviewProvider_def newService_def getWorkspaceContext_def newPromise_def
        fullPrompt_def genStreamId_example receiveAll_def)

end
